theory Spec2Isabelle
  imports Main
begin

section \<open>Values, objects and errors\<close>

text \<open>
  The enumeration engine of \<^verbatim>\<open>discord/enums.py\<close> decodes wire values. The literal
  values that a class body declares and that a decoded payload holds are modelled by
  \<open>raw\<close>: integers, booleans, strings, \<^verbatim>\<open>None\<close> and lists (the unhashable
  representative). Floating point numbers are left out.

  A member of an enumeration is an instance of the namedtuple class made by
  \<^verbatim>\<open>_create_value_cls\<close>, with the fields \<^verbatim>\<open>name\<close> and \<^verbatim>\<open>value\<close>. An object has an
  identity: \<open>oid\<close> is the address of the instance, \<open>vcls\<close> the address of its class
  (the namedtuple class). Python's \<^verbatim>\<open>is\<close> on two members is equality of \<open>oid\<close>.
\<close>

datatype raw = RInt int | RBool bool | RStr string | RNone | RList "raw list"

record symbol =
  oid :: nat
  sym_name :: string
  sym_value :: raw
  vcls :: nat

datatype pyval = Raw raw | Sym symbol

datatype error =
    KeyError
  | TypeError string
  | ValueError pyval string
  | IndexError
  | AttributeError

text \<open>
  What a class body can bind a name to: a plain literal, a function (\<^verbatim>\<open>def\<close>), a
  property or a classmethod. The string is the qualified name of the function.
  After the metaclass has run, the class dictionary holds members too.
\<close>

datatype attr = Plain raw | Function string | Property string | ClassMethod string

datatype cls_attr = Kept attr | Member symbol

record value_cls =
  vc_name :: string
  vc_attrs :: "(string \<times> attr) list"
  actual_enum_cls :: "nat option"

text \<open>
  The interpreter state the metaclass touches: the next free address, and the
  namedtuple classes by address (their attributes are set after they are created).
\<close>

record pystate =
  next_id :: nat
  types :: "nat \<Rightarrow> value_cls option"

record enum =
  cls_id :: nat
  cls_name :: string
  cls_bases :: "nat list"
  enum_value_map :: "(raw \<times> symbol) list"
  enum_member_map :: "(string \<times> symbol) list"
  enum_member_names :: "string list"
  cls_dict :: "(string \<times> cls_attr) list"

section \<open>Dictionaries\<close>

text \<open>
  A Python dict keeps insertion order; assigning to a key that is present replaces
  the value in place. Keys of the class dictionary and of the member map are strings.
\<close>

fun dict_set :: "('k \<times> 'v) list \<Rightarrow> 'k \<Rightarrow> 'v \<Rightarrow> ('k \<times> 'v) list" where
  "dict_set [] k v = [(k, v)]"
| "dict_set ((k', v') # d) k v =
     (if k' = k then (k', v) # d else (k', v') # dict_set d k v)"

fun dict_del :: "('k \<times> 'v) list \<Rightarrow> 'k \<Rightarrow> ('k \<times> 'v) list" where
  "dict_del [] k = []"
| "dict_del ((k', v') # d) k = (if k' = k then d else (k', v') # dict_del d k)"

fun dict_getitem :: "(string \<times> 'v) list \<Rightarrow> string \<Rightarrow> error + 'v" where
  "dict_getitem [] k = Inl KeyError"
| "dict_getitem ((k', v) # d) k = (if k' = k then Inr v else dict_getitem d k)"

text \<open>
  Python's \<^verbatim>\<open>==\<close> on literals: \<^verbatim>\<open>True == 1\<close> and \<^verbatim>\<open>False == 0\<close> hold, and equal
  literals have equal hashes. Lists compare elementwise; they are not hashable.
\<close>

fun raw_eq :: "raw \<Rightarrow> raw \<Rightarrow> bool" where
  "raw_eq (RInt i) (RInt j) = (i = j)"
| "raw_eq (RInt i) (RBool b) = (i = (if b then 1 else 0))"
| "raw_eq (RBool a) (RInt j) = ((if a then 1 else 0) = j)"
| "raw_eq (RBool a) (RBool b) = (a = b)"
| "raw_eq (RStr s) (RStr t) = (s = t)"
| "raw_eq RNone RNone = True"
| "raw_eq (RList xs) (RList ys) = list_all2 raw_eq xs ys"
| "raw_eq _ _ = False"

fun hashable :: "pyval \<Rightarrow> bool" where
  "hashable (Raw (RList xs)) = False"
| "hashable (Raw _) = True"
| "hashable (Sym s) = (case sym_value s of RList xs \<Rightarrow> False | _ \<Rightarrow> True)"

text \<open>
  The value map is keyed by declared literals. A lookup hashes the probe first
  (\<^verbatim>\<open>TypeError\<close> for an unhashable one) and then compares it with the stored keys.
  The hash of a member is the hash of the tuple of its name and value, taken here
  never to coincide with the hash of an integer, a string or \<^verbatim>\<open>None\<close>: a member
  as probe matches no stored literal.
\<close>

fun key_matches :: "raw \<Rightarrow> pyval \<Rightarrow> bool" where
  "key_matches k (Raw r) = raw_eq k r"
| "key_matches k (Sym s) = False"

fun value_map_find :: "(raw \<times> symbol) list \<Rightarrow> pyval \<Rightarrow> symbol option" where
  "value_map_find [] q = None"
| "value_map_find ((k, s) # d) q =
     (if key_matches k q then Some s else value_map_find d q)"

definition value_map_getitem :: "(raw \<times> symbol) list \<Rightarrow> pyval \<Rightarrow> error + symbol" where
  "value_map_getitem d q =
     (if \<not> hashable q then Inl (TypeError ''unhashable type'')
      else case value_map_find d q of None \<Rightarrow> Inl KeyError | Some s \<Rightarrow> Inr s)"

section \<open>The metaclass\<close>

subsection \<open>\<^verbatim>\<open>_create_value_cls\<close> and \<^verbatim>\<open>_is_descriptor\<close>\<close>

text \<open>
  \<^verbatim>\<open>_create_value_cls(name)\<close> makes the namedtuple class
  \<^verbatim>\<open>'_EnumValue_' + name\<close> and sets its \<^verbatim>\<open>__repr__\<close> and \<^verbatim>\<open>__str__\<close>.
  It returns the address of the new class.
\<close>

definition create_value_cls :: "pystate \<Rightarrow> string \<Rightarrow> nat \<times> pystate" where
  "create_value_cls st nm =
     (let a = next_id st;
          c = \<lparr>vc_name = ''_EnumValue_'' @ nm,
               vc_attrs = [(''__repr__'', Function ''<lambda>''),
                           (''__str__'', Function ''<lambda>'')],
               actual_enum_cls = None\<rparr>
      in (a, st\<lparr>next_id := Suc a, types := (types st)(a \<mapsto> c)\<rparr>))"

fun is_descriptor :: "attr \<Rightarrow> bool" where
  "is_descriptor (Plain v) = False"
| "is_descriptor (Function f) = True"
| "is_descriptor (Property f) = True"
| "is_descriptor (ClassMethod f) = True"

fun is_classmethod :: "attr \<Rightarrow> bool" where
  "is_classmethod (ClassMethod f) = True"
| "is_classmethod _ = False"

text \<open>\<^verbatim>\<open>setattr(value_cls, key, value)\<close> on the namedtuple class at address \<open>a\<close>.\<close>

definition setattr_value_cls :: "pystate \<Rightarrow> nat \<Rightarrow> string \<Rightarrow> attr \<Rightarrow> pystate" where
  "setattr_value_cls st a key v =
     (case types st a of
        None \<Rightarrow> st
      | Some c \<Rightarrow> st\<lparr>types := (types st)(a \<mapsto> c\<lparr>vc_attrs := dict_set (vc_attrs c) key v\<rparr>)\<rparr>)"

subsection \<open>\<^verbatim>\<open>EnumMeta.__new__\<close>\<close>

text \<open>
  The state of the loop over \<^verbatim>\<open>list(attrs.items())\<close>: the three tables, the class
  dictionary \<^verbatim>\<open>attrs\<close> being rewritten, and the interpreter state.
\<close>

record builder =
  value_mapping :: "(raw \<times> symbol) list"
  member_mapping :: "(string \<times> symbol) list"
  member_names :: "string list"
  attrs :: "(string \<times> cls_attr) list"
  heap :: pystate

text \<open>
  One iteration for a plain value: look the value up in \<^verbatim>\<open>value_mapping\<close>; on
  \<^verbatim>\<open>KeyError\<close> allocate a new member under this name. A \<^verbatim>\<open>TypeError\<close> (unhashable
  value) is not caught and aborts the class definition.
\<close>

definition add_member :: "nat \<Rightarrow> string \<Rightarrow> raw \<Rightarrow> builder \<Rightarrow> error + builder" where
  "add_member vc key v b =
     (case value_map_getitem (value_mapping b) (Raw v) of
        Inr new_value \<Rightarrow>
          Inr (b\<lparr>member_mapping := dict_set (member_mapping b) key new_value,
                 attrs := dict_set (attrs b) key (Member new_value)\<rparr>)
      | Inl KeyError \<Rightarrow>
          (let new_value = \<lparr>oid = next_id (heap b), sym_name = key, sym_value = v, vcls = vc\<rparr>
           in Inr (b\<lparr>value_mapping := value_mapping b @ [(v, new_value)],
                      member_names := member_names b @ [key],
                      member_mapping := dict_set (member_mapping b) key new_value,
                      attrs := dict_set (attrs b) key (Member new_value),
                      heap := (heap b)\<lparr>next_id := Suc (next_id (heap b))\<rparr>\<rparr>))
      | Inl e \<Rightarrow> Inl e)"

fun scan :: "nat \<Rightarrow> (string \<times> attr) list \<Rightarrow> builder \<Rightarrow> error + builder" where
  "scan vc [] b = Inr b"
| "scan vc ((key, v) # items) b =
     (if key = [] then Inl IndexError
      else if hd key = CHR ''_'' \<and> \<not> is_descriptor v then scan vc items b
      else if is_classmethod v then scan vc items b
      else if is_descriptor v then
        scan vc items (b\<lparr>heap := setattr_value_cls (heap b) vc key v,
                         attrs := dict_del (attrs b) key\<rparr>)
      else (case v of
              Plain r \<Rightarrow> (case add_member vc key r b of
                            Inl e \<Rightarrow> Inl e
                          | Inr b' \<Rightarrow> scan vc items b')
            | _ \<Rightarrow> scan vc items b))"

text \<open>
  \<^verbatim>\<open>EnumMeta.__new__(cls, name, bases, attrs)\<close>. The class body arrives as the
  ordered dictionary \<open>body\<close>. The new class gets a fresh address from
  \<^verbatim>\<open>super().__new__\<close>, and the namedtuple class is stamped with it.
\<close>

definition EnumMeta_new ::
  "pystate \<Rightarrow> string \<Rightarrow> nat list \<Rightarrow> (string \<times> attr) list \<Rightarrow> error + (enum \<times> pystate)" where
  "EnumMeta_new st nm bases body =
     (let (vc, st1) = create_value_cls st nm in
      case scan vc body \<lparr>value_mapping = [], member_mapping = [], member_names = [],
                         attrs = map (\<lambda>(k, v). (k, Kept v)) body, heap = st1\<rparr> of
        Inl e \<Rightarrow> Inl e
      | Inr b \<Rightarrow>
          (let st2 = heap b;
               c = next_id st2;
               actual_cls = \<lparr>cls_id = c, cls_name = nm, cls_bases = bases,
                             enum_value_map = value_mapping b,
                             enum_member_map = member_mapping b,
                             enum_member_names = member_names b,
                             cls_dict = attrs b\<rparr>;
               st3 = st2\<lparr>next_id := Suc c\<rparr>;
               st4 = (case types st3 vc of
                        None \<Rightarrow> st3
                      | Some r \<Rightarrow> st3\<lparr>types := (types st3)(vc \<mapsto> r\<lparr>actual_enum_cls := Some c\<rparr>)\<rparr>)
           in Inr (actual_cls, st4)))"

subsection \<open>The operations of an enumeration class\<close>

text \<open>A generator over member names; each step indexes the member map.\<close>

fun collect :: "(string \<times> symbol) list \<Rightarrow> string list \<Rightarrow> error + symbol list" where
  "collect m [] = Inr []"
| "collect m (n # ns) =
     (case dict_getitem m n of
        Inl e \<Rightarrow> Inl e
      | Inr s \<Rightarrow> (case collect m ns of Inl e \<Rightarrow> Inl e | Inr ss \<Rightarrow> Inr (s # ss)))"

definition EnumMeta_iter :: "enum \<Rightarrow> error + symbol list" where
  "EnumMeta_iter cls = collect (enum_member_map cls) (enum_member_names cls)"

definition EnumMeta_reversed :: "enum \<Rightarrow> error + symbol list" where
  "EnumMeta_reversed cls = collect (enum_member_map cls) (rev (enum_member_names cls))"

definition EnumMeta_len :: "enum \<Rightarrow> nat" where
  "EnumMeta_len cls = length (enum_member_names cls)"

definition EnumMeta_call :: "enum \<Rightarrow> pyval \<Rightarrow> error + symbol" where
  "EnumMeta_call cls v =
     (case value_map_getitem (enum_value_map cls) v of
        Inr s \<Rightarrow> Inr s
      | Inl KeyError \<Rightarrow> Inl (ValueError v (cls_name cls))
      | Inl (TypeError m) \<Rightarrow> Inl (ValueError v (cls_name cls))
      | Inl e \<Rightarrow> Inl e)"

definition EnumMeta_getitem :: "enum \<Rightarrow> string \<Rightarrow> error + symbol" where
  "EnumMeta_getitem cls key = dict_getitem (enum_member_map cls) key"

text \<open>
  \<^verbatim>\<open>__setattr__\<close> and \<^verbatim>\<open>__delattr__\<close> raise at once. The result is the outcome
  together with the class as it is afterwards.
\<close>

definition EnumMeta_setattr :: "enum \<Rightarrow> string \<Rightarrow> pyval \<Rightarrow> (error + unit) \<times> enum" where
  "EnumMeta_setattr cls nm v = (Inl (TypeError ''Enums are immutable.''), cls)"

definition EnumMeta_delattr :: "enum \<Rightarrow> string \<Rightarrow> (error + unit) \<times> enum" where
  "EnumMeta_delattr cls nm = (Inl (TypeError ''Enums are immutable''), cls)"

text \<open>
  \<^verbatim>\<open>instance._actual_enum_cls_\<close>: a member has no instance dictionary, the attribute
  is found on its class if the class has been stamped; a literal has no such
  attribute.
\<close>

fun getattr_actual_enum_cls :: "pystate \<Rightarrow> pyval \<Rightarrow> error + nat" where
  "getattr_actual_enum_cls st (Raw r) = Inl AttributeError"
| "getattr_actual_enum_cls st (Sym s) =
     (case types st (vcls s) of
        None \<Rightarrow> Inl AttributeError
      | Some c \<Rightarrow> (case actual_enum_cls c of None \<Rightarrow> Inl AttributeError | Some a \<Rightarrow> Inr a))"

definition EnumMeta_instancecheck :: "pystate \<Rightarrow> enum \<Rightarrow> pyval \<Rightarrow> error + bool" where
  "EnumMeta_instancecheck st self instance =
     (case getattr_actual_enum_cls st instance of
        Inr a \<Rightarrow> Inr (a = cls_id self)
      | Inl AttributeError \<Rightarrow> Inr False
      | Inl e \<Rightarrow> Inl e)"

subsection \<open>\<^verbatim>\<open>Enum.try_value\<close> and \<^verbatim>\<open>try_enum\<close>\<close>

definition try_value :: "enum \<Rightarrow> pyval \<Rightarrow> error + pyval" where
  "try_value cls v =
     (case value_map_getitem (enum_value_map cls) v of
        Inr s \<Rightarrow> Inr (Sym s)
      | Inl KeyError \<Rightarrow> Inr v
      | Inl (TypeError m) \<Rightarrow> Inr v
      | Inl e \<Rightarrow> Inl e)"

text \<open>
  \<^verbatim>\<open>try_enum(cls, val)\<close> takes any object as \<^verbatim>\<open>cls\<close>; one without the attribute
  \<^verbatim>\<open>_enum_value_map_\<close> raises \<^verbatim>\<open>AttributeError\<close>, which is caught.
\<close>

datatype pyobj = EnumClass enum | OtherObject

fun getattr_enum_value_map :: "pyobj \<Rightarrow> error + (raw \<times> symbol) list" where
  "getattr_enum_value_map (EnumClass c) = Inr (enum_value_map c)"
| "getattr_enum_value_map OtherObject = Inl AttributeError"

definition try_enum :: "pyobj \<Rightarrow> pyval \<Rightarrow> error + pyval" where
  "try_enum cls val =
     (case getattr_enum_value_map cls of
        Inl AttributeError \<Rightarrow> Inr val
      | Inl e \<Rightarrow> Inl e
      | Inr d \<Rightarrow>
          (case value_map_getitem d val of
             Inr s \<Rightarrow> Inr (Sym s)
           | Inl KeyError \<Rightarrow> Inr val
           | Inl (TypeError m) \<Rightarrow> Inr val
           | Inl AttributeError \<Rightarrow> Inr val
           | Inl e \<Rightarrow> Inl e))"

section \<open>The declarations of a class body\<close>

text \<open>
  The entries of a class body that become members: plain values under a name that
  does not start with an underscore.
\<close>

fun members :: "(string \<times> attr) list \<Rightarrow> (string \<times> raw) list" where
  "members [] = []"
| "members ((k, Plain r) # xs) =
     (if k \<noteq> [] \<and> hd k \<noteq> CHR ''_'' then (k, r) # members xs else members xs)"
| "members (_ # xs) = members xs"

text \<open>
  The declarations whose value has not been seen before, in order: the names and
  values under which new members are created. \<open>seen\<close> holds the values met so far.
\<close>

fun first_declared :: "raw list \<Rightarrow> (string \<times> raw) list \<Rightarrow> (string \<times> raw) list" where
  "first_declared seen [] = []"
| "first_declared seen ((n, v) # ds) =
     (if \<exists>k \<in> set seen. raw_eq k v then first_declared seen ds
      else (n, v) # first_declared (seen @ [v]) ds)"

text \<open>
  Equal literals have one canonical form: \<open>raw_eq a b\<close> holds exactly when
  \<open>canon a = canon b\<close>. The number of distinct values of a list of literals is the
  number of canonical forms.
\<close>

fun canon :: "raw \<Rightarrow> raw" where
  "canon (RBool b) = RInt (if b then 1 else 0)"
| "canon (RList xs) = RList (map canon xs)"
| "canon v = v"

text \<open>A class body can be turned into a class when no name is empty and every
  declared value is hashable.\<close>

definition well_formed_body :: "(string \<times> attr) list \<Rightarrow> bool" where
  "well_formed_body body \<longleftrightarrow>
     list_all (\<lambda>(k, v). k \<noteq> []) body \<and> list_all (\<lambda>(n, r). hashable (Raw r)) (members body)"

text \<open>The members made for a list of first declarations, at consecutive addresses.\<close>

fun mk_symbols :: "nat \<Rightarrow> nat \<Rightarrow> (string \<times> raw) list \<Rightarrow> (raw \<times> symbol) list" where
  "mk_symbols vc a [] = []"
| "mk_symbols vc a ((n, k) # ds) =
     (k, \<lparr>oid = a, sym_name = n, sym_value = k, vcls = vc\<rparr>) # mk_symbols vc (Suc a) ds"

text \<open>The loop starts from empty tables, with the namedtuple class just created.\<close>

definition init_builder :: "pystate \<Rightarrow> string \<Rightarrow> (string \<times> attr) list \<Rightarrow> builder" where
  "init_builder st nm body =
     \<lparr>value_mapping = [], member_mapping = [], member_names = [],
      attrs = map (\<lambda>(k, v). (k, Kept v)) body, heap = snd (create_value_cls st nm)\<rparr>"

text \<open>
  The tables \<open>scan\<close> adds to a builder: \<open>news\<close> are the new entries of the value
  map for the declarations \<open>ms\<close>.
\<close>

definition news_ok :: "nat \<Rightarrow> builder \<Rightarrow> (string \<times> raw) list \<Rightarrow> (raw \<times> symbol) list \<Rightarrow> builder \<Rightarrow> bool" where
  "news_ok vc b ms news b' \<longleftrightarrow>
     value_mapping b' = value_mapping b @ news \<and>
     member_names b' = member_names b @ map (\<lambda>(k, s). sym_name s) news \<and>
     map (\<lambda>(k, s). (sym_name s, k)) news = first_declared (map fst (value_mapping b)) ms \<and>
     (\<forall>(k, s) \<in> set news. sym_value s = k \<and> vcls s = vc \<and> hashable (Raw k)) \<and>
     map (\<lambda>(k, s). oid s) news = [next_id (heap b) ..< next_id (heap b) + length news] \<and>
     next_id (heap b') = next_id (heap b) + length news"

text \<open>What a finished class looks like, in terms of the declarations of its body.\<close>

definition built :: "pystate \<Rightarrow> string \<Rightarrow> (string \<times> attr) list \<Rightarrow> enum \<Rightarrow> pystate \<Rightarrow> bool" where
  "built st nm body cls st' \<longleftrightarrow>
     enum_member_names cls = map (\<lambda>(k, s). sym_name s) (enum_value_map cls) \<and>
     map (\<lambda>(k, s). (sym_name s, k)) (enum_value_map cls) = first_declared [] (members body) \<and>
     (\<forall>(k, s) \<in> set (enum_value_map cls). sym_value s = k \<and> vcls s = next_id st \<and> hashable (Raw k)) \<and>
     map (\<lambda>(k, s). oid s) (enum_value_map cls) =
       [Suc (next_id st) ..< Suc (next_id st) + length (enum_value_map cls)] \<and>
     cls_id cls = Suc (next_id st) + length (enum_value_map cls) \<and>
     next_id st' = Suc (cls_id cls) \<and>
     cls_name cls = nm \<and>
     (\<forall>a. a \<noteq> next_id st \<longrightarrow> types st' a = types st a) \<and>
     (\<exists>c. types st' (next_id st) = Some c \<and> actual_enum_cls c = Some (cls_id cls))"

section \<open>The classes of the module\<close>

text \<open>
  The class bodies of \<^verbatim>\<open>discord/enums.py\<close> as the metaclass receives them: the
  names \<^verbatim>\<open>__module__\<close> and \<^verbatim>\<open>__qualname__\<close> first, then the statements of the body
  in order. \<open>st0\<close> is an interpreter in which no class has been made yet.
\<close>

definition st0 :: pystate where "st0 = \<lparr>next_id = 0, types = (\<lambda>a. None)\<rparr>"

definition Enum_body :: "(string \<times> attr) list" where
  "Enum_body =
     [(''__module__'', Plain (RStr ''discord.enums'')),
      (''__qualname__'', Plain (RStr ''Enum'')),
      (''try_value'', ClassMethod ''Enum.try_value'')]"

definition ChannelType_body :: "(string \<times> attr) list" where
  "ChannelType_body =
     [(''__module__'', Plain (RStr ''discord.enums'')),
      (''__qualname__'', Plain (RStr ''ChannelType'')),
      (''text'', Plain (RInt 0)),
      (''private'', Plain (RInt 1)),
      (''voice'', Plain (RInt 2)),
      (''group'', Plain (RInt 3)),
      (''category'', Plain (RInt 4)),
      (''news'', Plain (RInt 5)),
      (''store'', Plain (RInt 6)),
      (''news_thread'', Plain (RInt 10)),
      (''public_thread'', Plain (RInt 11)),
      (''private_thread'', Plain (RInt 12)),
      (''stage_voice'', Plain (RInt 13)),
      (''__str__'', Function ''ChannelType.__str__'')]"

definition AuditLogActionCategory_body :: "(string \<times> attr) list" where
  "AuditLogActionCategory_body =
     [(''__module__'', Plain (RStr ''discord.enums'')),
      (''__qualname__'', Plain (RStr ''AuditLogActionCategory'')),
      (''create'', Plain (RInt 1)),
      (''delete'', Plain (RInt 2)),
      (''update'', Plain (RInt 3))]"

definition AuditLogAction_body :: "(string \<times> attr) list" where
  "AuditLogAction_body =
     [(''__module__'', Plain (RStr ''discord.enums'')),
      (''__qualname__'', Plain (RStr ''AuditLogAction'')),
      (''guild_update'', Plain (RInt 1)),
      (''channel_create'', Plain (RInt 10)),
      (''channel_update'', Plain (RInt 11)),
      (''channel_delete'', Plain (RInt 12)),
      (''overwrite_create'', Plain (RInt 13)),
      (''overwrite_update'', Plain (RInt 14)),
      (''overwrite_delete'', Plain (RInt 15)),
      (''kick'', Plain (RInt 20)),
      (''member_prune'', Plain (RInt 21)),
      (''ban'', Plain (RInt 22)),
      (''unban'', Plain (RInt 23)),
      (''member_update'', Plain (RInt 24)),
      (''member_role_update'', Plain (RInt 25)),
      (''member_move'', Plain (RInt 26)),
      (''member_disconnect'', Plain (RInt 27)),
      (''bot_add'', Plain (RInt 28)),
      (''role_create'', Plain (RInt 30)),
      (''role_update'', Plain (RInt 31)),
      (''role_delete'', Plain (RInt 32)),
      (''invite_create'', Plain (RInt 40)),
      (''invite_update'', Plain (RInt 41)),
      (''invite_delete'', Plain (RInt 42)),
      (''webhook_create'', Plain (RInt 50)),
      (''webhook_update'', Plain (RInt 51)),
      (''webhook_delete'', Plain (RInt 52)),
      (''emoji_create'', Plain (RInt 60)),
      (''emoji_update'', Plain (RInt 61)),
      (''emoji_delete'', Plain (RInt 62)),
      (''message_delete'', Plain (RInt 72)),
      (''message_bulk_delete'', Plain (RInt 73)),
      (''message_pin'', Plain (RInt 74)),
      (''message_unpin'', Plain (RInt 75)),
      (''integration_create'', Plain (RInt 80)),
      (''integration_update'', Plain (RInt 81)),
      (''integration_delete'', Plain (RInt 82)),
      (''category'', Property ''AuditLogAction.category''),
      (''target_type'', Property ''AuditLogAction.target_type'')]"

text \<open>Docstrings are shortened to their first line; the metaclass skips them.\<close>

definition ComponentType_body :: "(string \<times> attr) list" where
  "ComponentType_body =
     [(''__module__'', Plain (RStr ''discord.enums'')),
      (''__qualname__'', Plain (RStr ''ComponentType'')),
      (''ActionRow'', Plain (RInt 1)),
      (''Button'', Plain (RInt 2)),
      (''SelectMenu'', Plain (RInt 3)),
      (''__str__'', Function ''ComponentType.__str__''),
      (''__int__'', Function ''ComponentType.__int__''),
      (''__eq__'', Function ''ComponentType.__eq__'')]"

definition ButtonStyle_body :: "(string \<times> attr) list" where
  "ButtonStyle_body =
     [(''__module__'', Plain (RStr ''discord.enums'')),
      (''__qualname__'', Plain (RStr ''ButtonStyle'')),
      (''__doc__'', Plain (RStr '':class:ButtonStyle'')),
      (''blurple'', Plain (RInt 1)),
      (''Primary'', Plain (RInt 1)),
      (''grey'', Plain (RInt 2)),
      (''gray'', Plain (RInt 2)),
      (''Secondary'', Plain (RInt 2)),
      (''green'', Plain (RInt 3)),
      (''Success'', Plain (RInt 3)),
      (''red'', Plain (RInt 4)),
      (''Danger'', Plain (RInt 4)),
      (''url'', Plain (RInt 5)),
      (''link'', Plain (RInt 5)),
      (''grey_url'', Plain (RInt 5)),
      (''Link_Button'', Plain (RInt 5)),
      (''from_value'', ClassMethod ''ButtonStyle.from_value''),
      (''__str__'', Function ''ButtonStyle.__str__''),
      (''__int__'', Function ''ButtonStyle.__int__'')]"

definition ButtonColor_body :: "(string \<times> attr) list" where
  "ButtonColor_body =
     [(''__module__'', Plain (RStr ''discord.enums'')),
      (''__qualname__'', Plain (RStr ''ButtonColor'')),
      (''__doc__'', Plain (RStr '':class:ButtonColor''))]"

text \<open>
  The symbol set of the specification's scenario: \<^verbatim>\<open>text=0, private=1, voice=2\<close>,
  the first three members of \<^verbatim>\<open>ChannelType\<close>.
\<close>

definition scenario_body :: "(string \<times> attr) list" where
  "scenario_body =
     [(''__module__'', Plain (RStr ''discord.enums'')),
      (''__qualname__'', Plain (RStr ''ChannelType'')),
      (''text'', Plain (RInt 0)),
      (''private'', Plain (RInt 1)),
      (''voice'', Plain (RInt 2))]"

section \<open>Equality on \<^verbatim>\<open>ComponentType\<close>\<close>

text \<open>
  The methods of the body of \<^verbatim>\<open>ComponentType\<close>; the metaclass moves them to the
  namedtuple class of its members. \<^verbatim>\<open>__str__\<close> returns \<^verbatim>\<open>getattr(self, 'name')\<close> and
  \<^verbatim>\<open>__int__\<close> returns \<^verbatim>\<open>getattr(self, 'value')\<close>.
\<close>

definition ComponentType_str :: "symbol \<Rightarrow> string" where
  "ComponentType_str self = sym_name self"

definition ComponentType_int :: "symbol \<Rightarrow> raw" where
  "ComponentType_int self = sym_value self"

text \<open>\<^verbatim>\<open>int(x)\<close> calls \<^verbatim>\<open>__int__\<close> and raises \<^verbatim>\<open>TypeError\<close> unless the result is an integer.\<close>

fun py_int :: "raw \<Rightarrow> error + int" where
  "py_int (RInt i) = Inr i"
| "py_int (RBool b) = Inr (if b then 1 else 0)"
| "py_int _ = Inl (TypeError ''__int__ returned non-int'')"

text \<open>
  Whether the class of a member has the \<^verbatim>\<open>__eq__\<close> of \<^verbatim>\<open>ComponentType\<close>, the only
  \<^verbatim>\<open>__eq__\<close> the module defines.
\<close>

definition overrides_eq :: "pystate \<Rightarrow> symbol \<Rightarrow> bool" where
  "overrides_eq st s =
     (case types st (vcls s) of
        None \<Rightarrow> False
      | Some c \<Rightarrow> (case dict_getitem (vc_attrs c) ''__eq__'' of
                    Inr (Function f) \<Rightarrow> f = ''ComponentType.__eq__''
                  | _ \<Rightarrow> False))"

fun nsym :: "pyval \<Rightarrow> nat" where
  "nsym (Sym s) = 1"
| "nsym (Raw r) = 0"

text \<open>
  The operator \<^verbatim>\<open>a == b\<close>. Python asks the left operand first; when its type
  answers \<^verbatim>\<open>NotImplemented\<close> it asks the right operand with the operands swapped,
  and when that answers \<^verbatim>\<open>NotImplemented\<close> too the result is whether both are the
  same object.
  \<^item> Two literals compare by \<open>raw_eq\<close>.
  \<^item> An integer, a string, \<^verbatim>\<open>None\<close> or a list on the left answers \<^verbatim>\<open>NotImplemented\<close>
    for a member on the right, so the member is asked: its own \<^verbatim>\<open>__eq__\<close> if its
    class has one, else the \<^verbatim>\<open>__eq__\<close> of tuples, which answers \<^verbatim>\<open>NotImplemented\<close>
    for a literal.
  \<^item> A member on the left answers with its own \<^verbatim>\<open>__eq__\<close> if its class has one;
    else as a tuple: fieldwise against another member, \<^verbatim>\<open>NotImplemented\<close> against a
    literal.

  \<^verbatim>\<open>ComponentType.__eq__(self, other)\<close> is
  \<^verbatim>\<open>int(self) == other or str(self) == other\<close>.
\<close>

function py_eq :: "pystate \<Rightarrow> pyval \<Rightarrow> pyval \<Rightarrow> error + bool"
  and ComponentType_eq :: "pystate \<Rightarrow> symbol \<Rightarrow> pyval \<Rightarrow> error + bool" where
  "py_eq st (Raw a) (Raw b) = Inr (raw_eq a b)"
| "py_eq st (Raw a) (Sym t) =
     (if overrides_eq st t then ComponentType_eq st t (Raw a) else Inr False)"
| "py_eq st (Sym s) b =
     (if overrides_eq st s then ComponentType_eq st s b
      else (case b of
              Sym t \<Rightarrow> Inr (sym_name s = sym_name t \<and> raw_eq (sym_value s) (sym_value t))
            | Raw r \<Rightarrow> Inr False))"
| "ComponentType_eq st self other =
     (case py_int (ComponentType_int self) of
        Inl e \<Rightarrow> Inl e
      | Inr i \<Rightarrow>
          (case py_eq st (Raw (RInt i)) other of
             Inl e \<Rightarrow> Inl e
           | Inr c \<Rightarrow> if c then Inr True
                      else py_eq st (Raw (RStr (ComponentType_str self))) other))"
  by pat_completeness auto
termination
  by (relation "measure (\<lambda>x. case x of
                   Inl (st, a, b) \<Rightarrow> 2 * (nsym a + nsym b)
                 | Inr (st, s, b) \<Rightarrow> 2 * nsym b + 1)") auto

text \<open>\<^verbatim>\<open>ComponentType\<close> loaded into the empty interpreter, and its member \<^verbatim>\<open>Button\<close>.\<close>

definition ComponentType_loaded :: "error + enum \<times> pystate" where
  "ComponentType_loaded = EnumMeta_new st0 ''ComponentType'' [] ComponentType_body"

definition ComponentType_class :: enum where
  "ComponentType_class = fst (projr ComponentType_loaded)"

definition ComponentType_state :: pystate where
  "ComponentType_state = snd (projr ComponentType_loaded)"

definition ComponentType_Button :: symbol where
  "ComponentType_Button = projr (EnumMeta_getitem ComponentType_class ''Button'')"

section \<open>The derived properties of \<^verbatim>\<open>AuditLogAction\<close>\<close>

text \<open>
  \<^verbatim>\<open>AuditLogAction.guild_update\<close> reads an attribute of the class: the entry of the
  class dictionary (attributes inherited from a base class are not modelled).
\<close>

definition class_getattr :: "enum \<Rightarrow> string \<Rightarrow> error + cls_attr" where
  "class_getattr cls nm =
     (case dict_getitem (cls_dict cls) nm of Inl e \<Rightarrow> Inl AttributeError | Inr a \<Rightarrow> Inr a)"

text \<open>
  The dictionary \<^verbatim>\<open>lookup\<close> of \<^verbatim>\<open>category\<close> is keyed by members. A stored key matches
  a probe when both are the same object, or have equal hashes and are equal; the
  members of \<^verbatim>\<open>AuditLogAction\<close> hash and compare as the tuples of their name and
  value.
\<close>

definition sym_key_matches :: "symbol \<Rightarrow> symbol \<Rightarrow> bool" where
  "sym_key_matches k q \<longleftrightarrow>
     oid k = oid q \<or> (sym_name k = sym_name q \<and> raw_eq (sym_value k) (sym_value q))"

fun sdict_set :: "(symbol \<times> 'v) list \<Rightarrow> symbol \<Rightarrow> 'v \<Rightarrow> (symbol \<times> 'v) list" where
  "sdict_set [] k v = [(k, v)]"
| "sdict_set ((k', v') # d) k v =
     (if sym_key_matches k' k then (k', v) # d else (k', v') # sdict_set d k v)"

fun sdict_getitem :: "(symbol \<times> 'v) list \<Rightarrow> symbol \<Rightarrow> error + 'v" where
  "sdict_getitem [] k = Inl KeyError"
| "sdict_getitem ((k', v) # d) k = (if sym_key_matches k' k then Inr v else sdict_getitem d k)"

text \<open>
  The entries of the dictionary display in \<^verbatim>\<open>category\<close>, in order: the attribute of
  \<^verbatim>\<open>AuditLogAction\<close> that is the key, and the attribute of \<^verbatim>\<open>AuditLogActionCategory\<close>
  that is the value, or \<^verbatim>\<open>None\<close>.
\<close>

definition category_table :: "(string \<times> string option) list" where
  "category_table =
     [(''guild_update'', Some ''update''),
      (''channel_create'', Some ''create''),
      (''channel_update'', Some ''update''),
      (''channel_delete'', Some ''delete''),
      (''overwrite_create'', Some ''create''),
      (''overwrite_update'', Some ''update''),
      (''overwrite_delete'', Some ''delete''),
      (''kick'', None),
      (''member_prune'', None),
      (''ban'', None),
      (''unban'', None),
      (''member_update'', Some ''update''),
      (''member_role_update'', Some ''update''),
      (''member_move'', None),
      (''member_disconnect'', None),
      (''bot_add'', None),
      (''role_create'', Some ''create''),
      (''role_update'', Some ''update''),
      (''role_delete'', Some ''delete''),
      (''invite_create'', Some ''create''),
      (''invite_update'', Some ''update''),
      (''invite_delete'', Some ''delete''),
      (''webhook_create'', Some ''create''),
      (''webhook_update'', Some ''update''),
      (''webhook_delete'', Some ''delete''),
      (''emoji_create'', Some ''create''),
      (''emoji_update'', Some ''update''),
      (''emoji_delete'', Some ''delete''),
      (''message_delete'', Some ''delete''),
      (''message_bulk_delete'', Some ''delete''),
      (''message_pin'', None),
      (''message_unpin'', None),
      (''integration_create'', Some ''create''),
      (''integration_update'', Some ''update''),
      (''integration_delete'', Some ''delete'')]"

text \<open>
  Evaluating the display: each key and each value is read from its class, and the
  entry is stored. An attribute that is missing, or is not a member, ends the
  evaluation with an error.
\<close>

fun build_lookup ::
  "enum \<Rightarrow> enum \<Rightarrow> (string \<times> string option) list \<Rightarrow> (symbol \<times> pyval) list \<Rightarrow>
   error + (symbol \<times> pyval) list" where
  "build_lookup A C [] d = Inr d"
| "build_lookup A C ((a, c) # es) d =
     (case class_getattr A a of
        Inr (Member k) \<Rightarrow>
          (case c of
             None \<Rightarrow> build_lookup A C es (sdict_set d k (Raw RNone))
           | Some cn \<Rightarrow>
               (case class_getattr C cn of
                  Inr (Member v) \<Rightarrow> build_lookup A C es (sdict_set d k (Sym v))
                | Inr (Kept x) \<Rightarrow> Inl AttributeError
                | Inl e \<Rightarrow> Inl e))
      | Inr (Kept x) \<Rightarrow> Inl AttributeError
      | Inl e \<Rightarrow> Inl e)"

text \<open>
  \<^verbatim>\<open>AuditLogAction.category\<close>: \<open>A\<close> is the class \<^verbatim>\<open>AuditLogAction\<close> and \<open>C\<close> the class
  \<^verbatim>\<open>AuditLogActionCategory\<close>, the two globals the property reads. The property
  takes no interpreter state and returns none.
\<close>

definition AuditLogAction_category :: "enum \<Rightarrow> enum \<Rightarrow> symbol \<Rightarrow> error + pyval" where
  "AuditLogAction_category A C self =
     (case build_lookup A C category_table [] of
        Inl e \<Rightarrow> Inl e
      | Inr lookup \<Rightarrow> sdict_getitem lookup self)"

text \<open>
  \<^verbatim>\<open>AuditLogAction.target_type\<close>: a chain of \<^verbatim>\<open>elif v < bound\<close>; \<^verbatim>\<open><\<close> between a
  string, \<^verbatim>\<open>None\<close> or a list and an integer raises \<^verbatim>\<open>TypeError\<close>. When no branch is
  taken the property returns \<^verbatim>\<open>None\<close>.
\<close>

fun raw_lt :: "raw \<Rightarrow> int \<Rightarrow> error + bool" where
  "raw_lt (RInt i) n = Inr (i < n)"
| "raw_lt (RBool b) n = Inr ((if b then 1 else 0) < n)"
| "raw_lt _ n = Inl (TypeError ''< not supported'')"

fun elif_chain :: "raw \<Rightarrow> (int \<times> string) list \<Rightarrow> error + pyval" where
  "elif_chain v [] = Inr (Raw RNone)"
| "elif_chain v ((bound, label) # rest) =
     (case raw_lt v bound of
        Inl e \<Rightarrow> Inl e
      | Inr c \<Rightarrow> if c then Inr (Raw (RStr label)) else elif_chain v rest)"

definition AuditLogAction_target_type :: "symbol \<Rightarrow> error + pyval" where
  "AuditLogAction_target_type self =
     (let v = sym_value self in
      if raw_eq v (RInt (- 1)) then Inr (Raw (RStr ''all''))
      else elif_chain v
             [(10, ''guild''), (20, ''channel''), (30, ''user''), (40, ''role''),
              (50, ''invite''), (60, ''webhook''), (70, ''emoji''), (80, ''message''),
              (90, ''integration'')])"

text \<open>
  The specification's reading of the two properties: the category by the ending of
  the member's name, the target type by the tens of its value.
\<close>

definition ends_with :: "string \<Rightarrow> string \<Rightarrow> bool" where
  "ends_with suffix s \<longleftrightarrow>
     length suffix \<le> length s \<and> drop (length s - length suffix) s = suffix"

definition spec_category :: "string \<Rightarrow> string option" where
  "spec_category n =
     (if ends_with ''_create'' n then Some ''create''
      else if ends_with ''_update'' n then Some ''update''
      else if ends_with ''_delete'' n then Some ''delete''
      else None)"

definition spec_target_names :: "string list" where
  "spec_target_names =
     [''guild'', ''channel'', ''user'', ''role'', ''invite'', ''webhook'', ''emoji'',
      ''message'', ''integration'']"

text \<open>The value an entry of the display stores: \<^verbatim>\<open>None\<close>, or the member \<open>kc cn\<close> of the
  category class.\<close>

definition entry_value :: "(string \<Rightarrow> symbol) \<Rightarrow> string option \<Rightarrow> pyval" where
  "entry_value kc c = (case c of None \<Rightarrow> Raw RNone | Some cn \<Rightarrow> Sym (kc cn))"

section \<open>Properties\<close>

lemma value_map_find_None:
  "value_map_find d (Raw v) = None \<longleftrightarrow> \<not> (\<exists>k \<in> set (map fst d). raw_eq k v)"
  by (induction d) (auto split: if_splits)

lemma value_map_find_append:
  "value_map_find (d @ e) q =
     (case value_map_find d q of Some s \<Rightarrow> Some s | None \<Rightarrow> value_map_find e q)"
  by (induction d) auto

lemma add_member_news:
  assumes "add_member vc key v b = Inr b'"
  shows "\<exists>news. news_ok vc b [(key, v)] news b'"
proof (cases "value_map_getitem (value_mapping b) (Raw v)")
  case (Inr s)
  then have "value_map_find (value_mapping b) (Raw v) \<noteq> None"
    by (auto simp: value_map_getitem_def split: if_splits option.splits)
  then have ex: "\<exists>k \<in> set (map fst (value_mapping b)). raw_eq k v"
    by (simp only: value_map_find_None) simp
  from Inr assms have "value_mapping b' = value_mapping b" "member_names b' = member_names b"
    "heap b' = heap b"
    by (auto simp: add_member_def)
  with ex show ?thesis
    by (intro exI[of _ "[]"]) (simp add: news_ok_def)
next
  case (Inl e)
  with assms have e: "e = KeyError"
    by (auto simp: add_member_def split: error.splits)
  with Inl have h: "hashable (Raw v)" and nf: "value_map_find (value_mapping b) (Raw v) = None"
    by (auto simp: value_map_getitem_def split: if_splits option.splits)
  from nf have nex: "\<not> (\<exists>k \<in> set (map fst (value_mapping b)). raw_eq k v)"
    by (simp add: value_map_find_None)
  let ?s = "\<lparr>oid = next_id (heap b), sym_name = key, sym_value = v, vcls = vc\<rparr>"
  from Inl e assms have "value_mapping b' = value_mapping b @ [(v, ?s)]"
    "member_names b' = member_names b @ [key]"
    "next_id (heap b') = Suc (next_id (heap b))"
    by (auto simp: add_member_def Let_def)
  with nex h show ?thesis
    by (intro exI[of _ "[(v, ?s)]"]) (simp add: news_ok_def)
qed

lemma raw_eq_refl_hashable: "hashable (Raw v) \<Longrightarrow> raw_eq v v"
  by (cases v) auto

lemma add_member_mapping:
  assumes "add_member vc key v b = Inr b'"
  shows "\<exists>s. member_mapping b' = dict_set (member_mapping b) key s \<and>
             value_map_find (value_mapping b') (Raw v) = Some s"
proof (cases "value_map_getitem (value_mapping b) (Raw v)")
  case (Inr s)
  then have "value_map_find (value_mapping b) (Raw v) = Some s"
    by (auto simp: value_map_getitem_def split: if_splits option.splits)
  with Inr assms show ?thesis
    by (auto simp: add_member_def)
next
  case (Inl e)
  with assms have e: "e = KeyError"
    by (auto simp: add_member_def split: error.splits)
  with Inl have h: "hashable (Raw v)" and nf: "value_map_find (value_mapping b) (Raw v) = None"
    by (auto simp: value_map_getitem_def split: if_splits option.splits)
  from h have "raw_eq v v" by (rule raw_eq_refl_hashable)
  with Inl e assms nf show ?thesis
    by (auto simp: add_member_def Let_def value_map_find_append)
qed

lemma first_declared_append:
  "first_declared seen (xs @ ys) =
     first_declared seen xs @ first_declared (seen @ map snd (first_declared seen xs)) ys"
  by (induction xs arbitrary: seen) auto

lemma news_ok_refl_like:
  "value_mapping b' = value_mapping b \<Longrightarrow> member_names b' = member_names b \<Longrightarrow>
   next_id (heap b') = next_id (heap b) \<Longrightarrow> news_ok vc b [] [] b'"
  by (simp add: news_ok_def)

lemma news_ok_shift:
  "news_ok vc b1 ms news b' \<Longrightarrow> value_mapping b1 = value_mapping b \<Longrightarrow>
   member_names b1 = member_names b \<Longrightarrow> next_id (heap b1) = next_id (heap b) \<Longrightarrow>
   news_ok vc b ms news b'"
  by (simp add: news_ok_def)

lemma news_ok_trans:
  assumes a: "news_ok vc b ms1 n1 b1" and c: "news_ok vc b1 ms2 n2 b2"
  shows "news_ok vc b (ms1 @ ms2) (n1 @ n2) b2"
proof -
  have k: "map fst n1 = map snd (first_declared (map fst (value_mapping b)) ms1)"
  proof -
    have "map fst n1 = map snd (map (\<lambda>(k, s). (sym_name s, k)) n1)"
      by (induction n1) auto
    with a show ?thesis by (simp add: news_ok_def)
  qed
  have up: "[next_id (heap b) ..< next_id (heap b) + length n1] @
            [next_id (heap b) + length n1 ..< next_id (heap b) + length n1 + length n2] =
            [next_id (heap b) ..< next_id (heap b) + (length n1 + length n2)]"
    by (metis add.assoc le_add1 upt_add_eq_append)
  from a c show ?thesis
    unfolding news_ok_def
    by (auto simp: first_declared_append k up)
qed

lemma setattr_next_id [simp]: "next_id (setattr_value_cls st a key v) = next_id st"
  by (simp add: setattr_value_cls_def split: option.splits)

lemma scan_news:
  "scan vc items b = Inr b' \<Longrightarrow> \<exists>news. news_ok vc b (members items) news b'"
proof (induction items arbitrary: b)
  case Nil
  then show ?case by (auto intro: news_ok_refl_like)
next
  case (Cons kv items)
  obtain key v where kv: "kv = (key, v)" by (cases kv)
  from Cons.prems kv have ne: "key \<noteq> []" by (auto split: if_splits)
  show ?case
  proof (cases v)
    case (Plain r)
    show ?thesis
    proof (cases "hd key = CHR ''_''")
      case True
      with Plain ne kv Cons.prems have "scan vc items b = Inr b'" by simp
      from Cons.IH[OF this] True Plain kv show ?thesis by simp
    next
      case False
      with Plain ne kv Cons.prems obtain b1 where
        am: "add_member vc key r b = Inr b1" and sc: "scan vc items b1 = Inr b'"
        by (auto split: sum.splits)
      from add_member_news[OF am] obtain n1 where n1: "news_ok vc b [(key, r)] n1 b1" by blast
      from Cons.IH[OF sc] obtain n2 where n2: "news_ok vc b1 (members items) n2 b'" by blast
      from news_ok_trans[OF n1 n2] Plain ne False kv show ?thesis by auto
    qed
  next
    case (Function f)
    with ne kv Cons.prems have sc: "scan vc items (b\<lparr>heap := setattr_value_cls (heap b) vc key v,
                         attrs := dict_del (attrs b) key\<rparr>) = Inr b'" by simp
    from Cons.IH[OF sc] obtain n where
      "news_ok vc (b\<lparr>heap := setattr_value_cls (heap b) vc key v,
                         attrs := dict_del (attrs b) key\<rparr>) (members items) n b'" by blast
    then have "news_ok vc b (members items) n b'" by (rule news_ok_shift) auto
    with Function kv show ?thesis by auto
  next
    case (Property f)
    with ne kv Cons.prems have sc: "scan vc items (b\<lparr>heap := setattr_value_cls (heap b) vc key v,
                         attrs := dict_del (attrs b) key\<rparr>) = Inr b'" by simp
    from Cons.IH[OF sc] obtain n where
      "news_ok vc (b\<lparr>heap := setattr_value_cls (heap b) vc key v,
                         attrs := dict_del (attrs b) key\<rparr>) (members items) n b'" by blast
    then have "news_ok vc b (members items) n b'" by (rule news_ok_shift) auto
    with Property kv show ?thesis by auto
  next
    case (ClassMethod f)
    with ne kv Cons.prems have "scan vc items b = Inr b'" by simp
    from Cons.IH[OF this] ClassMethod kv show ?thesis by simp
  qed
qed

lemma dict_getitem_set:
  "dict_getitem (dict_set d k v) n = (if n = k then Inr v else dict_getitem d n)"
  by (induction d) auto

lemma members_keys: "fst ` set (members items) \<subseteq> fst ` set items"
  by (induction items rule: members.induct) auto

lemma scan_member_mapping:
  "scan vc items b = Inr b' \<Longrightarrow> distinct (map fst items) \<Longrightarrow>
   dict_getitem (member_mapping b') n =
     (case map_of (members items) n of
        None \<Rightarrow> dict_getitem (member_mapping b) n
      | Some r \<Rightarrow> (case value_map_find (value_mapping b') (Raw r) of
                     Some s \<Rightarrow> Inr s | None \<Rightarrow> Inl KeyError))"
proof (induction items arbitrary: b)
  case Nil
  then show ?case by simp
next
  case (Cons kv items)
  obtain key v where kv: "kv = (key, v)" by (cases kv)
  from Cons.prems kv have ne: "key \<noteq> []" by (auto split: if_splits)
  from Cons.prems kv have dist: "distinct (map fst items)" and fresh: "key \<notin> fst ` set items"
    by auto
  from fresh members_keys have nokey: "map_of (members items) key = None"
    by (metis map_of_eq_None_iff subsetD)
  show ?case
  proof (cases "\<exists>r. v = Plain r \<and> hd key \<noteq> CHR ''_''")
    case True
    then obtain r where Plain: "v = Plain r" and False: "hd key \<noteq> CHR ''_''" by blast
    with ne kv Cons.prems obtain b1 where
      am: "add_member vc key r b = Inr b1" and sc: "scan vc items b1 = Inr b'"
      by (auto split: sum.splits)
    from add_member_mapping[OF am] obtain s where
      mm: "member_mapping b1 = dict_set (member_mapping b) key s" and
      f: "value_map_find (value_mapping b1) (Raw r) = Some s" by blast
    from scan_news[OF sc] obtain news where "value_mapping b' = value_mapping b1 @ news"
      by (auto simp: news_ok_def)
    with f have f': "value_map_find (value_mapping b') (Raw r) = Some s"
      by (simp add: value_map_find_append)
    have ms: "members (kv # items) = (key, r) # members items"
      using Plain False ne kv by simp
    show ?thesis
    proof (cases "n = key")
      case True
      with Cons.IH[OF sc dist] nokey mm f' ms show ?thesis
        by (simp add: dict_getitem_set)
    next
      case False
      with Cons.IH[OF sc dist] mm ms show ?thesis
        by (simp add: dict_getitem_set split: option.splits)
    qed
  next
    case False
    then have ms: "members (kv # items) = members items"
      using kv ne by (cases v) auto
    from False ne kv Cons.prems obtain b1 where
      sc: "scan vc items b1 = Inr b'" and mm: "member_mapping b1 = member_mapping b"
      by (cases v) (auto split: if_splits)
    from Cons.IH[OF sc dist] mm ms show ?thesis by (simp split: option.splits)
  qed
qed

lemma raw_eq_canon: "raw_eq a b \<longleftrightarrow> canon a = canon b"
proof (induction a b rule: raw_eq.induct)
  case (7 xs ys)
  then show ?case
    by (auto simp: list_all2_conv_all_nth list_eq_iff_nth_eq)
qed auto

lemma value_map_find_distinct:
  "distinct (map (canon \<circ> fst) d) \<Longrightarrow> (k, s) \<in> set d \<Longrightarrow> value_map_find d (Raw k) = Some s"
proof (induction d)
  case Nil
  then show ?case by simp
next
  case (Cons a d)
  obtain k' s' where a: "a = (k', s')" by (cases a)
  show ?case
  proof (cases "(k, s) = (k', s')")
    case True
    with a show ?thesis by (simp add: raw_eq_canon)
  next
    case False
    with Cons.prems a have mem: "(k, s) \<in> set d" by auto
    then have "(canon \<circ> fst) (k, s) \<in> (canon \<circ> fst) ` set d" by (rule imageI)
    then have in_d: "canon k \<in> (canon \<circ> fst) ` set d" by simp
    from Cons.prems a have "canon k' \<notin> (canon \<circ> fst) ` set d" by simp
    with in_d have ne: "canon k' \<noteq> canon k" by metis
    from Cons.prems have "distinct (map (canon \<circ> fst) d)" by (simp add: comp_def)
    from Cons.IH[OF this mem] ne a show ?thesis by (simp add: raw_eq_canon)
  qed
qed

lemma seen_iff: "(\<exists>k \<in> set seen. raw_eq k v) \<longleftrightarrow> canon v \<in> canon ` set seen"
  unfolding raw_eq_canon image_iff by metis

lemma first_declared_fresh:
  "(n, v) \<in> set (first_declared seen ms) \<Longrightarrow> canon v \<notin> canon ` set seen"
proof (induction ms arbitrary: seen)
  case Nil
  then show ?case by simp
next
  case (Cons a ms)
  obtain n' v' where a: "a = (n', v')" by (cases a)
  show ?case
  proof (cases "canon v' \<in> canon ` set seen")
    case True
    with Cons.prems a have "(n, v) \<in> set (first_declared seen ms)"
      by (simp add: seen_iff)
    then show ?thesis by (rule Cons.IH)
  next
    case False
    with Cons.prems a have "(n, v) = (n', v') \<or> (n, v) \<in> set (first_declared (seen @ [v']) ms)"
      by (simp add: seen_iff)
    then show ?thesis
    proof
      assume "(n, v) = (n', v')"
      with False show ?thesis by simp
    next
      assume "(n, v) \<in> set (first_declared (seen @ [v']) ms)"
      from Cons.IH[OF this] show ?thesis by auto
    qed
  qed
qed

lemma first_declared_distinct:
  "distinct (map (canon \<circ> snd) (first_declared seen ms))"
proof (induction ms arbitrary: seen)
  case Nil
  then show ?case by simp
next
  case (Cons a ms)
  obtain n v where a: "a = (n, v)" by (cases a)
  have "canon v \<notin> (canon \<circ> snd) ` set (first_declared (seen @ [v]) ms)"
    using first_declared_fresh[of _ _ "seen @ [v]" ms] by fastforce
  with Cons.IH a show ?case by simp
qed

lemma first_declared_subset: "set (first_declared seen ms) \<subseteq> set ms"
proof (induction ms arbitrary: seen)
  case Nil
  then show ?case by simp
next
  case (Cons a ms)
  obtain n v where a: "a = (n, v)" by (cases a)
  from Cons.IH[of seen] Cons.IH[of "seen @ [v]"] a show ?case
    by (auto simp only: first_declared.simps set_simps split: if_splits)
qed

lemma first_declared_cover:
  "canon ` snd ` set (first_declared seen ms) \<union> canon ` set seen =
   canon ` snd ` set ms \<union> canon ` set seen"
proof (induction ms arbitrary: seen)
  case Nil
  then show ?case by simp
next
  case (Cons a ms)
  obtain n v where a: "a = (n, v)" by (cases a)
  show ?case
  proof (cases "\<exists>k \<in> set seen. raw_eq k v")
    case True
    then have "canon v \<in> canon ` set seen" by (simp only: seen_iff)
    with True a Cons.IH[of seen] show ?thesis by auto
  next
    case False
    with a Cons.IH[of "seen @ [v]"] show ?thesis by auto
  qed
qed

lemma first_declared_length:
  "length (first_declared [] ms) = card (canon ` snd ` set ms)"
proof -
  have "length (first_declared [] ms) = length (map (canon \<circ> snd) (first_declared [] ms))"
    by simp
  also have "\<dots> = card (set (map (canon \<circ> snd) (first_declared [] ms)))"
    using first_declared_distinct[of "[]" ms] by (simp only: distinct_card)
  also have "set (map (canon \<circ> snd) (first_declared [] ms)) = canon ` snd ` set ms"
    using first_declared_cover[of "[]" ms] by (simp add: image_comp)
  finally show ?thesis .
qed

text \<open>The first declaration whose value equals \<open>r\<close> is the same in both lists.\<close>

lemma first_declared_find:
  "canon r \<notin> canon ` set seen \<Longrightarrow>
   find (\<lambda>(n, v). raw_eq v r) (first_declared seen ms) = find (\<lambda>(n, v). raw_eq v r) ms"
proof (induction ms arbitrary: seen)
  case Nil
  then show ?case by simp
next
  case (Cons a ms)
  obtain n v where a: "a = (n, v)" by (cases a)
  show ?case
  proof (cases "\<exists>k \<in> set seen. raw_eq k v")
    case True
    then have "canon v \<in> canon ` set seen" by (simp only: seen_iff)
    with Cons.prems have "\<not> raw_eq v r" by (auto simp: raw_eq_canon)
    with True a Cons.IH[OF Cons.prems] show ?thesis by simp
  next
    case False
    show ?thesis
    proof (cases "raw_eq v r")
      case True
      with False a show ?thesis by simp
    next
      case nr: False
      with Cons.prems have "canon r \<notin> canon ` set (seen @ [v])" by (auto simp: raw_eq_canon)
      from Cons.IH[OF this] False nr a show ?thesis by simp
    qed
  qed
qed

lemma value_map_find_as_find:
  "value_map_find d (Raw r) = map_option snd (find (\<lambda>(k, s). raw_eq k r) d)"
  by (induction d) auto

lemma find_map_names:
  "find (\<lambda>(n, v). raw_eq v r) (map (\<lambda>(k, s). (sym_name s, k)) d) =
   map_option (\<lambda>(k, s). (sym_name s, k)) (find (\<lambda>(k, s). raw_eq k r) d)"
  by (induction d) auto

lemma add_member_types: "add_member vc key v b = Inr b' \<Longrightarrow> types (heap b') = types (heap b)"
  by (auto simp: add_member_def Let_def split: sum.splits error.splits)

lemma setattr_types_other: "a \<noteq> vc \<Longrightarrow> types (setattr_value_cls st vc key v) a = types st a"
  by (simp add: setattr_value_cls_def split: option.splits)

lemma setattr_types_vc:
  "types st vc = Some c \<Longrightarrow>
   \<exists>c'. types (setattr_value_cls st vc key v) vc = Some c' \<and> actual_enum_cls c' = actual_enum_cls c"
  by (simp add: setattr_value_cls_def)

lemma scan_types:
  "scan vc items b = Inr b' \<Longrightarrow>
   (\<forall>a. a \<noteq> vc \<longrightarrow> types (heap b') a = types (heap b) a) \<and>
   (\<forall>c. types (heap b) vc = Some c \<longrightarrow>
        (\<exists>c'. types (heap b') vc = Some c' \<and> actual_enum_cls c' = actual_enum_cls c))"
proof (induction items arbitrary: b)
  case Nil
  then show ?case by simp
next
  case (Cons kv items)
  obtain key v where kv: "kv = (key, v)" by (cases kv)
  from Cons.prems kv have ne: "key \<noteq> []" by (auto split: if_splits)
  consider (skip) "scan vc items b = Inr b'"
    | (descr) "scan vc items (b\<lparr>heap := setattr_value_cls (heap b) vc key v,
                         attrs := dict_del (attrs b) key\<rparr>) = Inr b'"
    | (mem) r b1 where "add_member vc key r b = Inr b1" "scan vc items b1 = Inr b'"
    using Cons.prems kv ne by (cases v) (auto split: if_splits sum.splits)
  then show ?case
  proof cases
    case skip
    then show ?thesis by (rule Cons.IH)
  next
    case descr
    from Cons.IH[OF descr] show ?thesis
      using setattr_types_other[of _ vc "heap b" key v] setattr_types_vc[of "heap b" vc _ key v]
      by (simp, metis)
  next
    case mem
    from Cons.IH[OF mem(2)] add_member_types[OF mem(1)] show ?thesis by simp
  qed
qed

lemma EnumMeta_new_scan:
  assumes "EnumMeta_new st nm bases body = Inr (cls, st')"
  shows "\<exists>b. scan (next_id st) body (init_builder st nm body) = Inr b \<and>
             enum_value_map cls = value_mapping b \<and>
             enum_member_map cls = member_mapping b \<and>
             enum_member_names cls = member_names b \<and>
             cls_name cls = nm \<and>
             cls_id cls = next_id (heap b) \<and>
             next_id st' = Suc (next_id (heap b)) \<and>
             (\<forall>a. a \<noteq> next_id st \<longrightarrow> types st' a = types (heap b) a) \<and>
             (\<forall>c. types (heap b) (next_id st) = Some c \<longrightarrow>
                  (\<exists>c'. types st' (next_id st) = Some c' \<and> actual_enum_cls c' = Some (cls_id cls)))"
  using assms
  by (auto simp: EnumMeta_new_def create_value_cls_def init_builder_def Let_def
           split: sum.splits option.splits)

lemma init_builder_simps:
  "value_mapping (init_builder st nm body) = []"
  "member_mapping (init_builder st nm body) = []"
  "member_names (init_builder st nm body) = []"
  "next_id (heap (init_builder st nm body)) = Suc (next_id st)"
  "types (heap (init_builder st nm body)) (next_id st) \<noteq> None"
  "a \<noteq> next_id st \<Longrightarrow> types (heap (init_builder st nm body)) a = types st a"
  "\<exists>c. types (heap (init_builder st nm body)) (next_id st) = Some c \<and> actual_enum_cls c = None"
  by (simp_all add: init_builder_def create_value_cls_def Let_def)

lemma EnumMeta_new_built:
  assumes "EnumMeta_new st nm bases body = Inr (cls, st')"
  shows "built st nm body cls st'"
proof -
  from EnumMeta_new_scan[OF assms] obtain b where
    sc: "scan (next_id st) body (init_builder st nm body) = Inr b" and
    vm: "enum_value_map cls = value_mapping b" and
    mn: "enum_member_names cls = member_names b" and
    nm: "cls_name cls = nm" and
    ci: "cls_id cls = next_id (heap b)" and
    ni: "next_id st' = Suc (next_id (heap b))" and
    ty: "\<forall>a. a \<noteq> next_id st \<longrightarrow> types st' a = types (heap b) a" and
    tv: "\<forall>c. types (heap b) (next_id st) = Some c \<longrightarrow>
                  (\<exists>c'. types st' (next_id st) = Some c' \<and> actual_enum_cls c' = Some (cls_id cls))"
    by blast
  from scan_news[OF sc] obtain news where
    n: "news_ok (next_id st) (init_builder st nm body) (members body) news b" by blast
  from scan_types[OF sc] have
    t1: "\<forall>a. a \<noteq> next_id st \<longrightarrow> types (heap b) a = types st a" and
    t2: "\<exists>c'. types (heap b) (next_id st) = Some c'"
    using init_builder_simps(6)[of _ st nm body] init_builder_simps(7)[of st nm body] by (simp, metis)
  from t2 tv have t3: "\<exists>c. types st' (next_id st) = Some c \<and> actual_enum_cls c = Some (cls_id cls)"
    by blast
  from n vm mn nm ci ni ty t1 t3 show ?thesis
    unfolding built_def news_ok_def
    by (simp add: init_builder_simps)
qed

lemma EnumMeta_new_getitem:
  assumes "EnumMeta_new st nm bases body = Inr (cls, st')" and "distinct (map fst body)"
  shows "EnumMeta_getitem cls n =
     (case map_of (members body) n of
        None \<Rightarrow> Inl KeyError
      | Some r \<Rightarrow> (case value_map_find (enum_value_map cls) (Raw r) of
                     Some s \<Rightarrow> Inr s | None \<Rightarrow> Inl KeyError))"
proof -
  from EnumMeta_new_scan[OF assms(1)] obtain b where
    sc: "scan (next_id st) body (init_builder st nm body) = Inr b" and
    vm: "enum_value_map cls = value_mapping b" and
    mm: "enum_member_map cls = member_mapping b"
    by blast
  from scan_member_mapping[OF sc assms(2), of n] vm mm show ?thesis
    by (simp add: EnumMeta_getitem_def init_builder_simps split: option.splits)
qed

lemma add_member_succeeds:
  "hashable (Raw v) \<Longrightarrow> \<exists>b'. add_member vc key v b = Inr b'"
  by (auto simp: add_member_def value_map_getitem_def Let_def split: option.splits)

lemma scan_succeeds:
  "list_all (\<lambda>(k, v). k \<noteq> []) items \<Longrightarrow>
   list_all (\<lambda>(n, r). hashable (Raw r)) (members items) \<Longrightarrow> \<exists>b'. scan vc items b = Inr b'"
proof (induction items arbitrary: b)
  case Nil
  then show ?case by simp
next
  case (Cons kv items)
  obtain key v where kv: "kv = (key, v)" by (cases kv)
  from Cons.prems kv have ne: "key \<noteq> []" and rest: "list_all (\<lambda>(k, v). k \<noteq> []) items" by auto
  show ?case
  proof (cases "\<exists>r. v = Plain r \<and> hd key \<noteq> CHR ''_''")
    case True
    then obtain r where v: "v = Plain r" and h: "hd key \<noteq> CHR ''_''" by blast
    with Cons.prems(2) kv ne have hr: "hashable (Raw r)"
      and ms: "list_all (\<lambda>(n, r). hashable (Raw r)) (members items)" by auto
    from add_member_succeeds[OF hr] obtain b1 where am: "add_member vc key r b = Inr b1" by blast
    from Cons.IH[OF rest ms] obtain b' where "scan vc items b1 = Inr b'" by blast
    with am v h ne kv show ?thesis by simp
  next
    case False
    with kv ne have "members (kv # items) = members items" by (cases v) auto
    with Cons.prems(2) have ms: "list_all (\<lambda>(n, r). hashable (Raw r)) (members items)" by simp
    from Cons.IH[OF rest ms] False kv ne show ?thesis by (cases v) auto
  qed
qed

lemma EnumMeta_new_succeeds:
  assumes "well_formed_body body"
  shows "\<exists>cls st'. EnumMeta_new st nm bases body = Inr (cls, st')"
proof -
  from assms scan_succeeds obtain b where
    "scan (next_id st) body (init_builder st nm body) = Inr b"
    unfolding well_formed_body_def by blast
  then show ?thesis
    by (simp add: EnumMeta_new_def init_builder_def create_value_cls_def Let_def)
qed

lemma mk_symbols_unique:
  "map (\<lambda>(k, s). (sym_name s, k)) d = ds \<Longrightarrow>
   \<forall>(k, s) \<in> set d. sym_value s = k \<and> vcls s = vc \<Longrightarrow>
   map (\<lambda>(k, s). oid s) d = [a ..< a + length d] \<Longrightarrow> d = mk_symbols vc a ds"
proof (induction d arbitrary: a ds)
  case Nil
  then show ?case by simp
next
  case (Cons x d)
  obtain k s where x: "x = (k, s)" by (cases x)
  from Cons.prems(3) x have o: "oid s = a" and os: "map (\<lambda>(k, s). oid s) d = [Suc a ..< Suc a + length d]"
    by (simp_all add: upt_rec)
  from Cons.prems(2) x have f: "sym_value s = k" "vcls s = vc"
    and r: "\<forall>(k, s) \<in> set d. sym_value s = k \<and> vcls s = vc" by auto
  from o f have s: "s = \<lparr>oid = a, sym_name = sym_name s, sym_value = k, vcls = vc\<rparr>" by simp
  from Cons.IH[OF refl r os] have "d = mk_symbols vc (Suc a) (map (\<lambda>(k, s). (sym_name s, k)) d)" .
  with Cons.prems(1) x s show ?case by auto
qed

lemma built_value_map:
  "built st nm body cls st' \<Longrightarrow>
   enum_value_map cls = mk_symbols (next_id st) (Suc (next_id st)) (first_declared [] (members body))"
  unfolding built_def
  by (intro mk_symbols_unique) auto

lemma raw_eq_hashable: "raw_eq k r \<Longrightarrow> hashable (Raw k) \<Longrightarrow> hashable (Raw r)"
  by (cases k; cases r) auto

lemma built_find_iff:
  assumes "built st nm body cls st'"
  shows "value_map_find (enum_value_map cls) v \<noteq> None \<longleftrightarrow>
         (\<exists>(n, k) \<in> set (members body). key_matches k v)"
proof (cases v)
  case (Sym s)
  have "value_map_find d (Sym s) = None" for d by (induction d) auto
  with Sym show ?thesis by auto
next
  case (Raw r)
  let ?vm = "enum_value_map cls"
  have keys: "map fst ?vm = map snd (first_declared [] (members body))"
  proof -
    have "map fst ?vm = map snd (map (\<lambda>(k, s). (sym_name s, k)) ?vm)" by (induction ?vm) auto
    with assms show ?thesis by (simp add: built_def)
  qed
  have "value_map_find ?vm (Raw r) \<noteq> None \<longleftrightarrow> canon r \<in> canon ` set (map fst ?vm)"
    by (simp only: value_map_find_None seen_iff) simp
  also have "canon ` set (map fst ?vm) = canon ` snd ` set (members body)"
    using first_declared_cover[of "[]" "members body"] by (simp add: keys)
  also have "canon r \<in> canon ` snd ` set (members body) \<longleftrightarrow>
             (\<exists>(n, k) \<in> set (members body). raw_eq k r)"
  proof
    assume "canon r \<in> canon ` snd ` set (members body)"
    then obtain n k where "(n, k) \<in> set (members body)" "canon r = canon k" by auto
    then show "\<exists>(n, k) \<in> set (members body). raw_eq k r"
      by (auto simp: raw_eq_canon intro!: bexI[of _ "(n, k)"])
  next
    assume "\<exists>(n, k) \<in> set (members body). raw_eq k r"
    then obtain n k where m: "(n, k) \<in> set (members body)" and "canon k = canon r"
      by (auto simp: raw_eq_canon)
    from m have "canon (snd (n, k)) \<in> canon ` snd ` set (members body)" by blast
    with \<open>canon k = canon r\<close> show "canon r \<in> canon ` snd ` set (members body)" by simp
  qed
  finally show ?thesis using Raw by simp
qed

lemma built_find_hashable:
  assumes "built st nm body cls st'" and "value_map_find (enum_value_map cls) v = Some s"
  shows "hashable v"
proof (cases v)
  case (Sym t)
  have "value_map_find d (Sym t) = None" for d by (induction d) auto
  with Sym assms(2) show ?thesis by simp
next
  case (Raw r)
  with assms(2) have "value_map_find (enum_value_map cls) (Raw r) \<noteq> None" by simp
  then obtain k where k: "k \<in> set (map fst (enum_value_map cls))" "raw_eq k r"
    unfolding value_map_find_None by blast
  then obtain t where "(k, t) \<in> set (enum_value_map cls)" by auto
  with assms(1) have "hashable (Raw k)" unfolding built_def by blast
  with k(2) Raw show ?thesis by (auto dest: raw_eq_hashable)
qed

lemma built_find_value:
  assumes "built st nm body cls st'" and "value_map_find (enum_value_map cls) (Raw r) = Some s"
  shows "raw_eq (sym_value s) r \<and> (sym_name s, sym_value s) \<in> set (members body)"
proof -
  have "value_map_find d (Raw r) = Some s \<Longrightarrow> \<exists>k. (k, s) \<in> set d \<and> raw_eq k r" for d
    by (induction d) (auto split: if_splits)
  with assms(2) obtain k where k: "(k, s) \<in> set (enum_value_map cls)" "raw_eq k r" by blast
  with assms(1) have v: "sym_value s = k" unfolding built_def by blast
  from k(1) have "(sym_name s, k) \<in> set (map (\<lambda>(k, s). (sym_name s, k)) (enum_value_map cls))"
    by force
  with assms(1) have "(sym_name s, k) \<in> set (first_declared [] (members body))"
    unfolding built_def by simp
  with first_declared_subset have "(sym_name s, k) \<in> set (members body)" by blast
  with v k(2) show ?thesis by simp
qed

lemma call_cases:
  assumes "built st nm body cls st'"
  shows "EnumMeta_call cls v =
     (case value_map_find (enum_value_map cls) v of
        Some s \<Rightarrow> Inr s | None \<Rightarrow> Inl (ValueError v nm))"
proof (cases "value_map_find (enum_value_map cls) v")
  case None
  with assms show ?thesis
    by (simp add: EnumMeta_call_def value_map_getitem_def built_def)
next
  case (Some s)
  with built_find_hashable[OF assms Some] show ?thesis
    by (simp add: EnumMeta_call_def value_map_getitem_def)
qed

lemma try_value_call:
  "try_value cls v = Inr (case EnumMeta_call cls v of Inr s \<Rightarrow> Sym s | Inl e \<Rightarrow> v)"
  by (simp add: try_value_def EnumMeta_call_def value_map_getitem_def split: option.splits)

lemma try_enum_try_value: "try_enum (EnumClass cls) v = try_value cls v"
  by (simp add: try_enum_def try_value_def value_map_getitem_def split: option.splits)

subsection \<open>Claim C1: try-resolve never raises\<close>

text \<open>
  Claim C1. For every class made by the metaclass and every input value,
  \<^verbatim>\<open>Enum.try_value\<close> and \<^verbatim>\<open>try_enum\<close> return a value and never an error: the member
  that \<^verbatim>\<open>EnumMeta.__call__\<close> returns when the input matches a declared value (as a
  dictionary key: equal hash and \<^verbatim>\<open>==\<close>), and the input itself, unchanged, in every
  other case, unhashable inputs included.
\<close>

theorem try_resolve_never_raises:
  assumes "EnumMeta_new st nm bases body = Inr (cls, st')"
  shows "try_value cls v = Inr (case EnumMeta_call cls v of Inr s \<Rightarrow> Sym s | Inl e \<Rightarrow> v) \<and>
         try_enum (EnumClass cls) v = try_value cls v \<and>
         try_enum OtherObject v = Inr v \<and>
         ((\<exists>(n, k) \<in> set (members body). key_matches k v) \<longrightarrow>
            (\<exists>s. EnumMeta_call cls v = Inr s \<and> try_value cls v = Inr (Sym s))) \<and>
         (\<not> (\<exists>(n, k) \<in> set (members body). key_matches k v) \<longrightarrow> try_value cls v = Inr v)"
proof -
  note b = EnumMeta_new_built[OF assms]
  have "try_enum OtherObject v = Inr v" by (simp add: try_enum_def)
  moreover have "\<exists>s. EnumMeta_call cls v = Inr s \<and> try_value cls v = Inr (Sym s)"
    if "\<exists>(n, k) \<in> set (members body). key_matches k v"
  proof -
    from that built_find_iff[OF b, of v] obtain s where
      "value_map_find (enum_value_map cls) v = Some s" by auto
    with call_cases[OF b, of v] show ?thesis by (simp add: try_value_call)
  qed
  moreover have "try_value cls v = Inr v"
    if "\<not> (\<exists>(n, k) \<in> set (members body). key_matches k v)"
  proof -
    from that built_find_iff[OF b, of v] have "value_map_find (enum_value_map cls) v = None" by auto
    with call_cases[OF b, of v] show ?thesis by (simp add: try_value_call)
  qed
  ultimately show ?thesis using try_value_call try_enum_try_value by blast
qed

lemma ChannelType_members:
  "members ChannelType_body =
     [(''text'', RInt 0), (''private'', RInt 1), (''voice'', RInt 2), (''group'', RInt 3),
      (''category'', RInt 4), (''news'', RInt 5), (''store'', RInt 6), (''news_thread'', RInt 10),
      (''public_thread'', RInt 11), (''private_thread'', RInt 12), (''stage_voice'', RInt 13)]"
  by (simp add: ChannelType_body_def)

lemma ChannelType_well_formed: "well_formed_body ChannelType_body"
  unfolding well_formed_body_def ChannelType_members by (simp add: ChannelType_body_def)

lemma Enum_well_formed: "well_formed_body Enum_body"
  unfolding well_formed_body_def by (simp add: Enum_body_def)

theorem try_resolve_never_raises_witness:
  "\<exists>E st1 cls st2.
     EnumMeta_new st0 ''Enum'' [] Enum_body = Inr (E, st1) \<and>
     EnumMeta_new st1 ''ChannelType'' [cls_id E] ChannelType_body = Inr (cls, st2) \<and>
     try_value cls (Raw (RInt 999)) = Inr (Raw (RInt 999)) \<and>
     try_enum (EnumClass cls) (Raw (RInt 999)) = Inr (Raw (RInt 999)) \<and>
     try_value cls (Raw (RList [RInt 1])) = Inr (Raw (RList [RInt 1])) \<and>
     (\<exists>s. EnumMeta_call cls (Raw (RInt 1)) = Inr s \<and> try_value cls (Raw (RInt 1)) = Inr (Sym s))"
proof -
  from EnumMeta_new_succeeds[OF Enum_well_formed] obtain E st1 where
    e: "EnumMeta_new st0 ''Enum'' [] Enum_body = Inr (E, st1)" by blast
  from EnumMeta_new_succeeds[OF ChannelType_well_formed] obtain cls st2 where
    c: "EnumMeta_new st1 ''ChannelType'' [cls_id E] ChannelType_body = Inr (cls, st2)" by blast
  have n999: "\<not> (\<exists>(n, k) \<in> set (members ChannelType_body). key_matches k (Raw (RInt 999)))"
    by (simp add: ChannelType_members)
  have nlist: "\<not> (\<exists>(n, k) \<in> set (members ChannelType_body). key_matches k (Raw (RList [RInt 1])))"
    by (simp add: ChannelType_members)
  have y1: "\<exists>(n, k) \<in> set (members ChannelType_body). key_matches k (Raw (RInt 1))"
    by (simp add: ChannelType_members)
  from try_resolve_never_raises[OF c, of "Raw (RInt 999)"] n999
  have a: "try_value cls (Raw (RInt 999)) = Inr (Raw (RInt 999))"
    "try_enum (EnumClass cls) (Raw (RInt 999)) = Inr (Raw (RInt 999))"
    by metis+
  from try_resolve_never_raises[OF c, of "Raw (RList [RInt 1])"] nlist
  have l: "try_value cls (Raw (RList [RInt 1])) = Inr (Raw (RList [RInt 1]))"
    by metis
  from try_resolve_never_raises[OF c, of "Raw (RInt 1)"] y1
  have m: "\<exists>s. EnumMeta_call cls (Raw (RInt 1)) = Inr s \<and> try_value cls (Raw (RInt 1)) = Inr (Sym s)"
    by metis
  from e c a l m show ?thesis by blast
qed

subsection \<open>Claim C5: the class is immutable\<close>

text \<open>
  Claim C5. For every class, every attribute name and every value, setting or
  deleting an attribute on the class raises \<^verbatim>\<open>TypeError\<close> with the text
  "Enums are immutable" (with a full stop when setting), and the class afterwards
  is the class before: member map, value map and member names are unchanged.
\<close>

theorem enum_immutable:
  "fst (EnumMeta_setattr cls nm v) = Inl (TypeError ''Enums are immutable.'') \<and>
   fst (EnumMeta_delattr cls nm) = Inl (TypeError ''Enums are immutable'') \<and>
   snd (EnumMeta_setattr cls nm v) = cls \<and>
   snd (EnumMeta_delattr cls nm) = cls \<and>
   enum_member_map (snd (EnumMeta_setattr cls nm v)) = enum_member_map cls \<and>
   enum_value_map (snd (EnumMeta_setattr cls nm v)) = enum_value_map cls \<and>
   enum_member_names (snd (EnumMeta_setattr cls nm v)) = enum_member_names cls \<and>
   enum_member_map (snd (EnumMeta_delattr cls nm)) = enum_member_map cls \<and>
   enum_value_map (snd (EnumMeta_delattr cls nm)) = enum_value_map cls \<and>
   enum_member_names (snd (EnumMeta_delattr cls nm)) = enum_member_names cls"
  by (simp add: EnumMeta_setattr_def EnumMeta_delattr_def)

lemma raw_eq_refl: "raw_eq r r"
  by (simp add: raw_eq_canon)

lemma members_sublist: "distinct (map fst items) \<Longrightarrow> distinct (map fst (members items))"
proof (induction items rule: members.induct)
  case (2 k r xs)
  with members_keys[of xs] show ?case by auto
qed auto

lemma built_keys:
  assumes "built st nm body cls st'"
  shows "map fst (enum_value_map cls) = map snd (first_declared [] (members body))"
proof -
  have "map fst (enum_value_map cls) = map snd (map (\<lambda>(k, s). (sym_name s, k)) (enum_value_map cls))"
    by (induction "enum_value_map cls") auto
  with assms show ?thesis by (simp add: built_def)
qed

lemma built_keys_distinct:
  assumes "built st nm body cls st'"
  shows "distinct (map (canon \<circ> fst) (enum_value_map cls))"
proof -
  have "map (canon \<circ> fst) (enum_value_map cls) = map canon (map fst (enum_value_map cls))" by simp
  also have "\<dots> = map (canon \<circ> snd) (first_declared [] (members body))"
    by (simp add: built_keys[OF assms])
  finally show ?thesis using first_declared_distinct[of "[]" "members body"] by simp
qed

lemma built_length:
  assumes "built st nm body cls st'"
  shows "length (enum_value_map cls) = card (canon ` snd ` set (members body))"
proof -
  have "length (enum_value_map cls) = length (map fst (enum_value_map cls))" by simp
  also have "\<dots> = length (first_declared [] (members body))"
    by (simp add: built_keys[OF assms])
  finally show ?thesis by (simp add: first_declared_length)
qed

lemma built_find_member:
  assumes b: "built st nm body cls st'" and m: "(n, r) \<in> set (members body)"
  shows "\<exists>s. value_map_find (enum_value_map cls) (Raw r) = Some s \<and>
             raw_eq (sym_value s) r \<and>
             find (\<lambda>(n', r'). raw_eq r' r) (members body) = Some (sym_name s, sym_value s)"
proof -
  from m have "\<exists>(n, k) \<in> set (members body). key_matches k (Raw r)"
    by (auto simp: raw_eq_refl intro!: bexI[of _ "(n, r)"])
  with built_find_iff[OF b, of "Raw r"] obtain s where
    f: "value_map_find (enum_value_map cls) (Raw r) = Some s" by auto
  from built_find_value[OF b f] have v: "raw_eq (sym_value s) r" by simp
  from f obtain k where
    fk: "find (\<lambda>(k, s). raw_eq k r) (enum_value_map cls) = Some (k, s)"
    by (auto simp: value_map_find_as_find)
  then have "(k, s) \<in> set (enum_value_map cls)"
    by (auto simp: find_Some_iff in_set_conv_nth)
  with b have k: "sym_value s = k" unfolding built_def by blast
  have "find (\<lambda>(n', r'). raw_eq r' r) (first_declared [] (members body)) =
        map_option (\<lambda>(k, s). (sym_name s, k)) (find (\<lambda>(k, s). raw_eq k r) (enum_value_map cls))"
    using b find_map_names[of r "enum_value_map cls"] by (simp add: built_def)
  with fk k have "find (\<lambda>(n', r'). raw_eq r' r) (first_declared [] (members body)) =
                  Some (sym_name s, sym_value s)" by simp
  with first_declared_find[of r "[]" "members body"] f v show ?thesis by simp
qed

lemma built_find_alias:
  "raw_eq r1 r2 \<Longrightarrow> value_map_find d (Raw r1) = value_map_find d (Raw r2)"
  by (induction d) (auto simp: raw_eq_canon)

subsection \<open>Claim C2: strict-resolve\<close>

text \<open>
  Claim C2. For every class made by the metaclass, calling the class on a value
  returns a member whose value equals the input exactly when the input matches a
  declared value; for every other input, unhashable ones included, it raises
  \<^verbatim>\<open>ValueError\<close> for that input and that class name.
\<close>

theorem strict_resolve:
  assumes "EnumMeta_new st nm bases body = Inr (cls, st')"
  shows "((\<exists>(n, k) \<in> set (members body). key_matches k v) \<longrightarrow>
            (\<exists>s r. v = Raw r \<and> EnumMeta_call cls v = Inr s \<and> raw_eq (sym_value s) r \<and>
                   (sym_name s, sym_value s) \<in> set (members body))) \<and>
         (\<not> (\<exists>(n, k) \<in> set (members body). key_matches k v) \<longrightarrow>
            EnumMeta_call cls v = Inl (ValueError v nm))"
proof -
  note b = EnumMeta_new_built[OF assms]
  have "\<exists>s r. v = Raw r \<and> EnumMeta_call cls v = Inr s \<and> raw_eq (sym_value s) r \<and>
                   (sym_name s, sym_value s) \<in> set (members body)"
    if "\<exists>(n, k) \<in> set (members body). key_matches k v"
  proof -
    from that obtain r where r: "v = Raw r" by (cases v) auto
    from that built_find_iff[OF b, of v] obtain s where
      f: "value_map_find (enum_value_map cls) v = Some s" by auto
    with call_cases[OF b, of v] have c: "EnumMeta_call cls v = Inr s" by simp
    from built_find_value[OF b] f r c show ?thesis by auto
  qed
  moreover have "EnumMeta_call cls v = Inl (ValueError v nm)"
    if "\<not> (\<exists>(n, k) \<in> set (members body). key_matches k v)"
  proof -
    from that built_find_iff[OF b, of v] have "value_map_find (enum_value_map cls) v = None" by auto
    with call_cases[OF b, of v] show ?thesis by simp
  qed
  ultimately show ?thesis by blast
qed

theorem strict_resolve_witness:
  "\<exists>E st1 cls st2.
     EnumMeta_new st0 ''Enum'' [] Enum_body = Inr (E, st1) \<and>
     EnumMeta_new st1 ''ChannelType'' [cls_id E] ChannelType_body = Inr (cls, st2) \<and>
     (\<exists>s. EnumMeta_call cls (Raw (RInt 1)) = Inr s \<and> raw_eq (sym_value s) (RInt 1)) \<and>
     (\<exists>s. EnumMeta_call cls (Raw (RBool True)) = Inr s \<and> raw_eq (sym_value s) (RBool True)) \<and>
     EnumMeta_call cls (Raw (RInt 999)) = Inl (ValueError (Raw (RInt 999)) ''ChannelType'') \<and>
     EnumMeta_call cls (Raw (RList [])) = Inl (ValueError (Raw (RList [])) ''ChannelType'')"
proof -
  from EnumMeta_new_succeeds[OF Enum_well_formed] obtain E st1 where
    e: "EnumMeta_new st0 ''Enum'' [] Enum_body = Inr (E, st1)" by blast
  from EnumMeta_new_succeeds[OF ChannelType_well_formed] obtain cls st2 where
    c: "EnumMeta_new st1 ''ChannelType'' [cls_id E] ChannelType_body = Inr (cls, st2)" by blast
  have y1: "\<exists>(n, k) \<in> set (members ChannelType_body). key_matches k (Raw (RInt 1))"
    by (simp add: ChannelType_members)
  have y2: "\<exists>(n, k) \<in> set (members ChannelType_body). key_matches k (Raw (RBool True))"
    by (simp add: ChannelType_members)
  have n1: "\<not> (\<exists>(n, k) \<in> set (members ChannelType_body). key_matches k (Raw (RInt 999)))"
    by (simp add: ChannelType_members)
  have n2: "\<not> (\<exists>(n, k) \<in> set (members ChannelType_body). key_matches k (Raw (RList [])))"
    by (simp add: ChannelType_members)
  from strict_resolve[OF c, of "Raw (RInt 1)"] y1
  have a: "\<exists>s. EnumMeta_call cls (Raw (RInt 1)) = Inr s \<and> raw_eq (sym_value s) (RInt 1)"
    by auto
  from strict_resolve[OF c, of "Raw (RBool True)"] y2
  have a': "\<exists>s. EnumMeta_call cls (Raw (RBool True)) = Inr s \<and> raw_eq (sym_value s) (RBool True)"
    by auto
  from strict_resolve[OF c, of "Raw (RInt 999)"] n1
  have d: "EnumMeta_call cls (Raw (RInt 999)) = Inl (ValueError (Raw (RInt 999)) ''ChannelType'')"
    by blast
  from strict_resolve[OF c, of "Raw (RList [])"] n2
  have d': "EnumMeta_call cls (Raw (RList [])) = Inl (ValueError (Raw (RList [])) ''ChannelType'')"
    by blast
  from e c a a' d d' show ?thesis by blast
qed

lemma built_getitem_member:
  assumes n: "EnumMeta_new st nm bases body = Inr (cls, st')" and d: "distinct (map fst body)"
    and m: "(n, r) \<in> set (members body)"
  shows "\<exists>s. EnumMeta_getitem cls n = Inr s \<and>
             value_map_find (enum_value_map cls) (Raw r) = Some s \<and>
             EnumMeta_call cls (Raw r) = Inr s \<and>
             raw_eq (sym_value s) r \<and>
             find (\<lambda>(n', r'). raw_eq r' r) (members body) = Some (sym_name s, sym_value s)"
proof -
  note b = EnumMeta_new_built[OF n]
  from members_sublist[OF d] m have mo: "map_of (members body) n = Some r" by simp
  from built_find_member[OF b m] obtain s where
    s: "value_map_find (enum_value_map cls) (Raw r) = Some s" "raw_eq (sym_value s) r"
       "find (\<lambda>(n', r'). raw_eq r' r) (members body) = Some (sym_name s, sym_value s)"
    by blast
  from EnumMeta_new_getitem[OF n d, of n] mo s(1) have "EnumMeta_getitem cls n = Inr s" by simp
  moreover from call_cases[OF b, of "Raw r"] s(1) have "EnumMeta_call cls (Raw r) = Inr s" by simp
  ultimately show ?thesis using s by blast
qed

lemma built_oids_distinct:
  assumes "built st nm body cls st'"
  shows "distinct (map (\<lambda>(k, s). oid s) (enum_value_map cls))"
  using assms unfolding built_def by simp

subsection \<open>Claim C3: lookup by name and aliases\<close>

text \<open>
  Claim C3. For every declared pair of a name and a value, indexing the class by
  the name returns a member whose value equals the declared value: the member that
  calling the class on the value returns, and its name is the first name declared
  with an equal value. Names declared with equal values index the very same member
  (the same object, not an equal one): a class body allocates one member for each
  distinct value and nothing for a later name.
\<close>

theorem lookup_by_name:
  assumes "EnumMeta_new st nm bases body = Inr (cls, st')" and "distinct (map fst body)"
  shows "(\<forall>(n, r) \<in> set (members body).
            \<exists>s. EnumMeta_getitem cls n = Inr s \<and> raw_eq (sym_value s) r \<and>
                EnumMeta_call cls (Raw r) = Inr s \<and>
                find (\<lambda>(n', r'). raw_eq r' r) (members body) = Some (sym_name s, sym_value s)) \<and>
         (\<forall>(n1, r1) \<in> set (members body). \<forall>(n2, r2) \<in> set (members body).
            raw_eq r1 r2 \<longrightarrow> EnumMeta_getitem cls n1 = EnumMeta_getitem cls n2) \<and>
         distinct (map (\<lambda>(k, s). oid s) (enum_value_map cls)) \<and>
         length (enum_value_map cls) = card (canon ` snd ` set (members body)) \<and>
         next_id st' = next_id st + 2 + length (enum_value_map cls)"
proof -
  note b = EnumMeta_new_built[OF assms(1)]
  have one: "\<exists>s. EnumMeta_getitem cls n = Inr s \<and> raw_eq (sym_value s) r \<and>
                EnumMeta_call cls (Raw r) = Inr s \<and>
                find (\<lambda>(n', r'). raw_eq r' r) (members body) = Some (sym_name s, sym_value s)"
    if "(n, r) \<in> set (members body)" for n r
    using built_getitem_member[OF assms that] by blast
  have two: "EnumMeta_getitem cls n1 = EnumMeta_getitem cls n2"
    if m1: "(n1, r1) \<in> set (members body)" and m2: "(n2, r2) \<in> set (members body)"
      and eq: "raw_eq r1 r2" for n1 r1 n2 r2
  proof -
    from built_getitem_member[OF assms m1] obtain s1 where
      s1: "EnumMeta_getitem cls n1 = Inr s1" "value_map_find (enum_value_map cls) (Raw r1) = Some s1"
      by blast
    from built_getitem_member[OF assms m2] obtain s2 where
      s2: "EnumMeta_getitem cls n2 = Inr s2" "value_map_find (enum_value_map cls) (Raw r2) = Some s2"
      by blast
    from built_find_alias[OF eq, of "enum_value_map cls"] s1(2) s2(2) have "s1 = s2" by simp
    with s1(1) s2(1) show ?thesis by simp
  qed
  from b have three: "next_id st' = next_id st + 2 + length (enum_value_map cls)"
    unfolding built_def by simp
  from one two built_oids_distinct[OF b] built_length[OF b] three show ?thesis
    by blast
qed

lemma ButtonStyle_members:
  "members ButtonStyle_body =
     [(''blurple'', RInt 1), (''Primary'', RInt 1), (''grey'', RInt 2), (''gray'', RInt 2),
      (''Secondary'', RInt 2), (''green'', RInt 3), (''Success'', RInt 3), (''red'', RInt 4),
      (''Danger'', RInt 4), (''url'', RInt 5), (''link'', RInt 5), (''grey_url'', RInt 5),
      (''Link_Button'', RInt 5)]"
  by (simp add: ButtonStyle_body_def)

lemma ButtonStyle_well_formed: "well_formed_body ButtonStyle_body"
  unfolding well_formed_body_def ButtonStyle_members by (simp add: ButtonStyle_body_def)

lemma ButtonStyle_distinct: "distinct (map fst ButtonStyle_body)"
  by (simp add: ButtonStyle_body_def)

theorem lookup_by_name_witness:
  "\<exists>E st1 cls st2 s.
     EnumMeta_new st0 ''Enum'' [] Enum_body = Inr (E, st1) \<and>
     EnumMeta_new st1 ''ButtonStyle'' [cls_id E] ButtonStyle_body = Inr (cls, st2) \<and>
     EnumMeta_getitem cls ''grey'' = Inr s \<and>
     EnumMeta_getitem cls ''gray'' = Inr s \<and>
     EnumMeta_getitem cls ''Secondary'' = Inr s \<and>
     sym_name s = ''grey'' \<and> sym_value s = RInt 2 \<and>
     length (enum_value_map cls) = 5"
proof -
  from EnumMeta_new_succeeds[OF Enum_well_formed] obtain E st1 where
    e: "EnumMeta_new st0 ''Enum'' [] Enum_body = Inr (E, st1)" by blast
  from EnumMeta_new_succeeds[OF ButtonStyle_well_formed] obtain cls st2 where
    c: "EnumMeta_new st1 ''ButtonStyle'' [cls_id E] ButtonStyle_body = Inr (cls, st2)" by blast
  note t = lookup_by_name[OF c ButtonStyle_distinct]
  have m1: "(''grey'', RInt 2) \<in> set (members ButtonStyle_body)"
    and m2: "(''gray'', RInt 2) \<in> set (members ButtonStyle_body)"
    and m3: "(''Secondary'', RInt 2) \<in> set (members ButtonStyle_body)"
    by (simp_all add: ButtonStyle_members)
  have f: "find (\<lambda>(n', r'). raw_eq r' (RInt 2)) (members ButtonStyle_body) = Some (''grey'', RInt 2)"
    by (simp add: ButtonStyle_members)
  from t m1 f obtain s where s: "EnumMeta_getitem cls ''grey'' = Inr s"
    "sym_name s = ''grey''" "sym_value s = RInt 2" by fastforce
  from t m1 m2 have "EnumMeta_getitem cls ''grey'' = EnumMeta_getitem cls ''gray''"
    by (fastforce simp: raw_eq_refl)
  moreover from t m1 m3 have "EnumMeta_getitem cls ''grey'' = EnumMeta_getitem cls ''Secondary''"
    by (fastforce simp: raw_eq_refl)
  moreover have "card (canon ` snd ` set (members ButtonStyle_body)) = 5"
    by (simp add: ButtonStyle_members)
  with t have "length (enum_value_map cls) = 5" by simp
  ultimately show ?thesis using e c s by force
qed

lemma collect_map:
  "\<forall>s \<in> set ss. dict_getitem m (sym_name s) = Inr s \<Longrightarrow> collect m (map sym_name ss) = Inr ss"
  by (induction ss) auto

lemma built_names_index:
  assumes n: "EnumMeta_new st nm bases body = Inr (cls, st')" and d: "distinct (map fst body)"
    and s: "s \<in> set (map snd (enum_value_map cls))"
  shows "dict_getitem (enum_member_map cls) (sym_name s) = Inr s"
proof -
  note b = EnumMeta_new_built[OF n]
  from s obtain k where k: "(k, s) \<in> set (enum_value_map cls)" by auto
  then have "(sym_name s, k) \<in> set (map (\<lambda>(k, s). (sym_name s, k)) (enum_value_map cls))"
    by force
  with b have "(sym_name s, k) \<in> set (first_declared [] (members body))"
    unfolding built_def by simp
  with first_declared_subset have m: "(sym_name s, k) \<in> set (members body)" by blast
  from members_sublist[OF d] m have mo: "map_of (members body) (sym_name s) = Some k" by simp
  from value_map_find_distinct[OF built_keys_distinct[OF b] k]
  have "value_map_find (enum_value_map cls) (Raw k) = Some s" .
  with EnumMeta_new_getitem[OF n d, of "sym_name s"] mo show ?thesis
    by (simp add: EnumMeta_getitem_def)
qed

lemma built_iter:
  assumes n: "EnumMeta_new st nm bases body = Inr (cls, st')" and d: "distinct (map fst body)"
  shows "EnumMeta_iter cls = Inr (map snd (enum_value_map cls))"
    and "EnumMeta_reversed cls = Inr (rev (map snd (enum_value_map cls)))"
proof -
  note b = EnumMeta_new_built[OF n]
  let ?ss = "map snd (enum_value_map cls)"
  from b have names: "enum_member_names cls = map sym_name ?ss"
    unfolding built_def by (simp add: case_prod_unfold comp_def)
  have idx: "\<forall>s \<in> set ?ss. dict_getitem (enum_member_map cls) (sym_name s) = Inr s"
    using built_names_index[OF n d] by blast
  from collect_map[OF idx] names show "EnumMeta_iter cls = Inr ?ss"
    by (simp add: EnumMeta_iter_def)
  from idx have "\<forall>s \<in> set (rev ?ss). dict_getitem (enum_member_map cls) (sym_name s) = Inr s"
    by simp
  from collect_map[OF this] names show "EnumMeta_reversed cls = Inr (rev ?ss)"
    by (simp add: EnumMeta_reversed_def rev_map)
qed

lemma built_pairs:
  assumes "built st nm body cls st'"
  shows "map (\<lambda>s. (sym_name s, sym_value s)) (map snd (enum_value_map cls)) =
         first_declared [] (members body)"
proof -
  from assms have "\<forall>x \<in> set (enum_value_map cls).
      (sym_name (snd x), sym_value (snd x)) = (\<lambda>(k, s). (sym_name s, k)) x"
    unfolding built_def by auto
  then have "map (\<lambda>x. (sym_name (snd x), sym_value (snd x))) (enum_value_map cls) =
             map (\<lambda>(k, s). (sym_name s, k)) (enum_value_map cls)"
    by (intro map_cong) auto
  with assms show ?thesis unfolding built_def by (simp add: comp_def)
qed

lemma scenario_members:
  "members scenario_body = [(''text'', RInt 0), (''private'', RInt 1), (''voice'', RInt 2)]"
  by (simp add: scenario_body_def)

lemma scenario_well_formed: "well_formed_body scenario_body"
  unfolding well_formed_body_def scenario_members by (simp add: scenario_body_def)

lemma scenario_distinct: "distinct (map fst scenario_body)"
  by (simp add: scenario_body_def)

lemma scenario_value_map:
  assumes "EnumMeta_new st0 ''ChannelType'' [] scenario_body = Inr (cls, st')"
  shows "enum_value_map cls =
     [(RInt 0, \<lparr>oid = 1, sym_name = ''text'', sym_value = RInt 0, vcls = 0\<rparr>),
      (RInt 1, \<lparr>oid = 2, sym_name = ''private'', sym_value = RInt 1, vcls = 0\<rparr>),
      (RInt 2, \<lparr>oid = 3, sym_name = ''voice'', sym_value = RInt 2, vcls = 0\<rparr>)]"
  using built_value_map[OF EnumMeta_new_built[OF assms]]
  by (simp add: scenario_members st0_def)

subsection \<open>Claim C4: iteration order and count\<close>



subsection \<open>Claim C8: reverse iteration\<close>

text \<open>
  Claim C8. For every class made by the metaclass, \<^verbatim>\<open>reversed\<close> yields exactly the
  reverse of what iteration yields: the same members, as many, in the opposite
  order. Both are finite lists computed from the class alone.
\<close>

theorem reverse_iteration:
  assumes "EnumMeta_new st nm bases body = Inr (cls, st')" and "distinct (map fst body)"
  shows "\<exists>ss. EnumMeta_iter cls = Inr ss \<and> EnumMeta_reversed cls = Inr (rev ss) \<and>
              length (rev ss) = length ss \<and> set (rev ss) = set ss"
  using built_iter[OF assms] by simp

theorem reverse_iteration_witness:
  "\<exists>cls st' ss.
     EnumMeta_new st0 ''ChannelType'' [] scenario_body = Inr (cls, st') \<and>
     EnumMeta_iter cls = Inr ss \<and> EnumMeta_reversed cls = Inr (rev ss) \<and>
     map sym_name ss = [''text'', ''private'', ''voice''] \<and>
     map sym_name (rev ss) = [''voice'', ''private'', ''text'']"
proof -
  from EnumMeta_new_succeeds[OF scenario_well_formed] obtain cls st' where
    c: "EnumMeta_new st0 ''ChannelType'' [] scenario_body = Inr (cls, st')" by blast
  from reverse_iteration[OF c scenario_distinct] obtain ss where
    ss: "EnumMeta_iter cls = Inr ss" "EnumMeta_reversed cls = Inr (rev ss)" by blast
  from built_iter(1)[OF c scenario_distinct] ss(1) have vm: "ss = map snd (enum_value_map cls)"
    by simp
  from vm scenario_value_map[OF c] have n: "map sym_name ss = [''text'', ''private'', ''voice'']"
    "map sym_name (rev ss) = [''voice'', ''private'', ''text'']" by simp_all
  with c ss have "EnumMeta_new st0 ''ChannelType'' [] scenario_body = Inr (cls, st') \<and>
     EnumMeta_iter cls = Inr ss \<and> EnumMeta_reversed cls = Inr (rev ss) \<and>
     map sym_name ss = [''text'', ''private'', ''voice''] \<and>
     map sym_name (rev ss) = [''voice'', ''private'', ''text'']" by simp
  then show ?thesis by - (rule exI)+
qed

lemma dict_set_mem: "(a, x) \<in> set (dict_set d k v) \<Longrightarrow> x = v \<or> (\<exists>a'. (a', x) \<in> set d)"
  by (induction d) (auto split: if_splits)

lemma dict_set_range: "snd ` set (dict_set d k v) \<subseteq> insert v (snd ` set d)"
  using dict_set_mem[of _ _ d k v] by force

lemma dict_getitem_mem: "dict_getitem d k = Inr v \<Longrightarrow> (k, v) \<in> set d"
  by (induction d) (auto split: if_splits)

lemma value_map_find_mem: "value_map_find d q = Some s \<Longrightarrow> s \<in> snd ` set d"
  by (induction d) (auto split: if_splits)

lemma scan_member_range:
  "scan vc items b = Inr b' \<Longrightarrow>
   snd ` set (member_mapping b) \<subseteq> snd ` set (value_mapping b) \<Longrightarrow>
   snd ` set (member_mapping b') \<subseteq> snd ` set (value_mapping b')"
proof (induction items arbitrary: b)
  case Nil
  then show ?case by simp
next
  case (Cons kv items)
  obtain key v where kv: "kv = (key, v)" by (cases kv)
  from Cons.prems kv have ne: "key \<noteq> []" by (auto split: if_splits)
  consider (skip) b1 where "scan vc items b1 = Inr b'" "member_mapping b1 = member_mapping b"
      "value_mapping b1 = value_mapping b"
    | (mem) r b1 where "add_member vc key r b = Inr b1" "scan vc items b1 = Inr b'"
    using Cons.prems(1) kv ne by (cases v) (auto split: if_splits sum.splits)
  then show ?case
  proof cases
    case skip
    from Cons.IH[OF skip(1)] skip(2,3) Cons.prems(2) show ?thesis by simp
  next
    case mem
    from add_member_mapping[OF mem(1)] obtain s where
      mm: "member_mapping b1 = dict_set (member_mapping b) key s" and
      f: "value_map_find (value_mapping b1) (Raw r) = Some s" by blast
    from add_member_news[OF mem(1)] obtain news where
      vm: "value_mapping b1 = value_mapping b @ news" by (auto simp: news_ok_def)
    from value_map_find_mem[OF f] have "s \<in> snd ` set (value_mapping b1)" .
    moreover from vm Cons.prems(2) have "snd ` set (member_mapping b) \<subseteq> snd ` set (value_mapping b1)"
      by auto
    ultimately have "insert s (snd ` set (member_mapping b)) \<subseteq> snd ` set (value_mapping b1)"
      by simp
    with dict_set_range[of "member_mapping b" key s] mm
    have "snd ` set (member_mapping b1) \<subseteq> snd ` set (value_mapping b1)"
      by (simp only: subset_trans)
    from Cons.IH[OF mem(2) this] show ?thesis .
  qed
qed

lemma built_member_vcls:
  assumes n: "EnumMeta_new st nm bases body = Inr (cls, st')"
    and g: "EnumMeta_getitem cls k = Inr s"
  shows "vcls s = next_id st"
proof -
  from EnumMeta_new_scan[OF n] obtain b where
    sc: "scan (next_id st) body (init_builder st nm body) = Inr b" and
    vm: "enum_value_map cls = value_mapping b" and
    mm: "enum_member_map cls = member_mapping b"
    by blast
  from scan_member_range[OF sc] have "snd ` set (member_mapping b) \<subseteq> snd ` set (value_mapping b)"
    by (simp add: init_builder_simps)
  moreover from g mm have "(k, s) \<in> set (member_mapping b)"
    by (auto simp: EnumMeta_getitem_def dest: dict_getitem_mem)
  ultimately obtain r where "(r, s) \<in> set (enum_value_map cls)" using vm by force
  with EnumMeta_new_built[OF n] show ?thesis unfolding built_def by blast
qed

lemma instancecheck_iff:
  "EnumMeta_instancecheck st C x =
     Inr (\<exists>s c. x = Sym s \<and> types st (vcls s) = Some c \<and> actual_enum_cls c = Some (cls_id C))"
  by (cases x) (auto simp: EnumMeta_instancecheck_def split: option.splits)

lemma two_classes:
  assumes "EnumMeta_new st nmA basesA bodyA = Inr (A, st1)"
    and "next_id st1 \<le> next_id stB"
    and "types stB (next_id st) = types st1 (next_id st)"
    and "EnumMeta_new stB nmB basesB bodyB = Inr (B, st2)"
  shows "cls_id A \<noteq> cls_id B \<and>
         (\<forall>n s. EnumMeta_getitem A n = Inr s \<longrightarrow>
            EnumMeta_instancecheck st2 A (Sym s) = Inr True \<and> EnumMeta_instancecheck st2 B (Sym s) = Inr False) \<and>
         (\<forall>n s. EnumMeta_getitem B n = Inr s \<longrightarrow>
            EnumMeta_instancecheck st2 B (Sym s) = Inr True \<and> EnumMeta_instancecheck st2 A (Sym s) = Inr False) \<and>
         (\<forall>r. EnumMeta_instancecheck st2 A (Raw r) = Inr False \<and> EnumMeta_instancecheck st2 B (Raw r) = Inr False) \<and>
         (\<forall>C x. EnumMeta_instancecheck st2 C x =
            Inr (\<exists>s c. x = Sym s \<and> types st2 (vcls s) = Some c \<and>
                   actual_enum_cls c = Some (cls_id C)))"
proof -
  note bA = EnumMeta_new_built[OF assms(1)] and bB = EnumMeta_new_built[OF assms(4)]
  from bA have idA: "next_id st < cls_id A" "cls_id A < next_id st1"
    unfolding built_def by simp_all
  from bB have idB: "next_id stB < cls_id B" unfolding built_def by simp
  from idA idB assms(2) have ne: "cls_id A \<noteq> cls_id B" and vne: "next_id st \<noteq> next_id stB"
    by simp_all
  from bA obtain cA where cA: "types st1 (next_id st) = Some cA" "actual_enum_cls cA = Some (cls_id A)"
    unfolding built_def by blast
  from bB vne assms(3) cA have tA: "types st2 (next_id st) = Some cA"
    unfolding built_def by simp
  from bB obtain cB where cB: "types st2 (next_id stB) = Some cB" "actual_enum_cls cB = Some (cls_id B)"
    unfolding built_def by blast
  have mA: "EnumMeta_instancecheck st2 A (Sym s) = Inr True \<and> EnumMeta_instancecheck st2 B (Sym s) = Inr False"
    if "EnumMeta_getitem A n = Inr s" for n s
    using built_member_vcls[OF assms(1) that] tA cA(2) ne by (simp add: instancecheck_iff)
  have mB: "EnumMeta_instancecheck st2 B (Sym s) = Inr True \<and> EnumMeta_instancecheck st2 A (Sym s) = Inr False"
    if "EnumMeta_getitem B n = Inr s" for n s
    using built_member_vcls[OF assms(4) that] cB ne by (simp add: instancecheck_iff)
  have lit: "EnumMeta_instancecheck st2 C (Raw r) = Inr False" for C r
    by (simp add: instancecheck_iff)
  from ne mA mB lit instancecheck_iff show ?thesis by blast
qed


subsection \<open>Claim C6: type membership\<close>

text \<open>
  Claim C6. Let \<open>A\<close> and \<open>B\<close> be two classes made by the metaclass, \<open>B\<close> after \<open>A\<close>
  (the namedtuple class of \<open>A\<close> untouched in between). Then \<^verbatim>\<open>isinstance\<close> against a
  class holds exactly for the objects whose class carries a back-reference that is
  this very class: a member of \<open>A\<close> is an instance of \<open>A\<close> and not of \<open>B\<close>, a member
  of \<open>B\<close> is an instance of \<open>B\<close> and not of \<open>A\<close>, and an object without the
  back-reference (a literal) is an instance of neither, with no error.
\<close>

theorem type_membership:
  assumes "EnumMeta_new st nmA basesA bodyA = Inr (A, st1)"
    and "next_id st1 \<le> next_id stB"
    and "types stB (next_id st) = types st1 (next_id st)"
    and "EnumMeta_new stB nmB basesB bodyB = Inr (B, st2)"
  shows "cls_id A \<noteq> cls_id B \<and>
         (\<forall>n s. EnumMeta_getitem A n = Inr s \<longrightarrow>
            EnumMeta_instancecheck st2 A (Sym s) = Inr True \<and> EnumMeta_instancecheck st2 B (Sym s) = Inr False) \<and>
         (\<forall>n s. EnumMeta_getitem B n = Inr s \<longrightarrow>
            EnumMeta_instancecheck st2 B (Sym s) = Inr True \<and> EnumMeta_instancecheck st2 A (Sym s) = Inr False) \<and>
         (\<forall>r. EnumMeta_instancecheck st2 A (Raw r) = Inr False \<and> EnumMeta_instancecheck st2 B (Raw r) = Inr False) \<and>
         (\<forall>C x. EnumMeta_instancecheck st2 C x =
            Inr (\<exists>s c. x = Sym s \<and> types st2 (vcls s) = Some c \<and>
                   actual_enum_cls c = Some (cls_id C)))"
  using two_classes[OF assms] .

lemma ComponentType_members:
  "members ComponentType_body = [(''ActionRow'', RInt 1), (''Button'', RInt 2), (''SelectMenu'', RInt 3)]"
  by (simp add: ComponentType_body_def)

lemma ComponentType_well_formed: "well_formed_body ComponentType_body"
  unfolding well_formed_body_def ComponentType_members by (simp add: ComponentType_body_def)

lemma ComponentType_distinct: "distinct (map fst ComponentType_body)"
  by (simp add: ComponentType_body_def)

theorem type_membership_witness:
  "\<exists>A st1 B st2 s t.
     EnumMeta_new st0 ''ChannelType'' [] scenario_body = Inr (A, st1) \<and>
     EnumMeta_new st1 ''ComponentType'' [] ComponentType_body = Inr (B, st2) \<and>
     EnumMeta_getitem A ''text'' = Inr s \<and>
     EnumMeta_getitem B ''Button'' = Inr t \<and>
     EnumMeta_instancecheck st2 A (Sym s) = Inr True \<and> EnumMeta_instancecheck st2 B (Sym s) = Inr False \<and>
     EnumMeta_instancecheck st2 B (Sym t) = Inr True \<and> EnumMeta_instancecheck st2 A (Sym t) = Inr False \<and>
     EnumMeta_instancecheck st2 A (Raw (RInt 0)) = Inr False \<and>
     EnumMeta_instancecheck st2 B (Raw (RStr ''Button'')) = Inr False"
proof -
  from EnumMeta_new_succeeds[OF scenario_well_formed] obtain A st1 where
    a: "EnumMeta_new st0 ''ChannelType'' [] scenario_body = Inr (A, st1)" by blast
  from EnumMeta_new_succeeds[OF ComponentType_well_formed] obtain B st2 where
    b: "EnumMeta_new st1 ''ComponentType'' [] ComponentType_body = Inr (B, st2)" by blast
  have "(''text'', RInt 0) \<in> set (members scenario_body)" by (simp add: scenario_members)
  from built_getitem_member[OF a scenario_distinct this] obtain s where
    s: "EnumMeta_getitem A ''text'' = Inr s" by blast
  have "(''Button'', RInt 2) \<in> set (members ComponentType_body)"
    by (simp add: ComponentType_members)
  from built_getitem_member[OF b ComponentType_distinct this] obtain t where
    t: "EnumMeta_getitem B ''Button'' = Inr t" by blast
  note th = type_membership[OF a le_refl refl b]
  from th s have 1: "EnumMeta_instancecheck st2 A (Sym s) = Inr True \<and> EnumMeta_instancecheck st2 B (Sym s) = Inr False"
    by blast
  from th t have 2: "EnumMeta_instancecheck st2 B (Sym t) = Inr True \<and> EnumMeta_instancecheck st2 A (Sym t) = Inr False"
    by blast
  from th have 3: "EnumMeta_instancecheck st2 A (Raw (RInt 0)) = Inr False \<and>
     EnumMeta_instancecheck st2 B (Raw (RStr ''Button'')) = Inr False" by blast
  from a b s t 1 2 3 have "EnumMeta_new st0 ''ChannelType'' [] scenario_body = Inr (A, st1) \<and>
     EnumMeta_new st1 ''ComponentType'' [] ComponentType_body = Inr (B, st2) \<and>
     EnumMeta_getitem A ''text'' = Inr s \<and>
     EnumMeta_getitem B ''Button'' = Inr t \<and>
     EnumMeta_instancecheck st2 A (Sym s) = Inr True \<and> EnumMeta_instancecheck st2 B (Sym s) = Inr False \<and>
     EnumMeta_instancecheck st2 B (Sym t) = Inr True \<and> EnumMeta_instancecheck st2 A (Sym t) = Inr False \<and>
     EnumMeta_instancecheck st2 A (Raw (RInt 0)) = Inr False \<and>
     EnumMeta_instancecheck st2 B (Raw (RStr ''Button'')) = Inr False" by simp
  then show ?thesis by - (rule exI)+
qed

lemma ButtonColor_new:
  "\<exists>BC st2. EnumMeta_new st1 ''ButtonColor'' bs ButtonColor_body = Inr (BC, st2) \<and>
     enum_value_map BC = [] \<and> enum_member_map BC = [] \<and> enum_member_names BC = []"
  by (simp add: EnumMeta_new_def ButtonColor_body_def create_value_cls_def Let_def)

subsection \<open>Claim C9: \<^verbatim>\<open>ButtonColor\<close> is an empty class\<close>

text \<open>
  Claim C9. The class \<^verbatim>\<open>ButtonColor\<close>, a subclass of \<^verbatim>\<open>ButtonStyle\<close> with an empty
  body, is made as a fresh class with empty tables: its length is 0, iterating it
  yields nothing, calling it on any value (2 included, a value of \<^verbatim>\<open>ButtonStyle\<close>)
  raises \<^verbatim>\<open>ValueError\<close>, \<^verbatim>\<open>try_value\<close> returns every input unchanged, and no member
  of \<^verbatim>\<open>ButtonStyle\<close> is an instance of it.
\<close>

theorem ButtonColor_empty:
  "\<exists>BS st1 BC st2.
     EnumMeta_new st ''ButtonStyle'' bases ButtonStyle_body = Inr (BS, st1) \<and>
     EnumMeta_new st1 ''ButtonColor'' [cls_id BS] ButtonColor_body = Inr (BC, st2) \<and>
     enum_value_map BC = [] \<and> enum_member_map BC = [] \<and> enum_member_names BC = [] \<and>
     EnumMeta_len BC = 0 \<and> EnumMeta_iter BC = Inr [] \<and> EnumMeta_reversed BC = Inr [] \<and>
     (\<forall>v. EnumMeta_call BC v = Inl (ValueError v ''ButtonColor'')) \<and>
     (\<forall>v. try_value BC v = Inr v) \<and>
     (\<forall>v. try_enum (EnumClass BC) v = Inr v) \<and>
     (\<exists>g. EnumMeta_call BS (Raw (RInt 2)) = Inr g \<and> sym_name g = ''grey'') \<and>
     (\<forall>n s. EnumMeta_getitem BS n = Inr s \<longrightarrow> EnumMeta_instancecheck st2 BC (Sym s) = Inr False)"
proof -
  from EnumMeta_new_succeeds[OF ButtonStyle_well_formed] obtain BS st1 where
    bs: "EnumMeta_new st ''ButtonStyle'' bases ButtonStyle_body = Inr (BS, st1)" by blast
  from ButtonColor_new obtain BC st2 where
    bc: "EnumMeta_new st1 ''ButtonColor'' [cls_id BS] ButtonColor_body = Inr (BC, st2)" and
    e: "enum_value_map BC = []" "enum_member_map BC = []" "enum_member_names BC = []"
    by blast
  note b = EnumMeta_new_built[OF bc]
  from e have l: "EnumMeta_len BC = 0" "EnumMeta_iter BC = Inr []" "EnumMeta_reversed BC = Inr []"
    by (simp_all add: EnumMeta_len_def EnumMeta_iter_def EnumMeta_reversed_def)
  have call: "EnumMeta_call BC v = Inl (ValueError v ''ButtonColor'')" for v
    using call_cases[OF b, of v] e by simp
  have tv: "try_value BC v = Inr v" for v
    using call[of v] by (simp add: try_value_call)
  have tv': "try_enum (EnumClass BC) v = Inr v" for v
    using tv[of v] by (simp add: try_enum_try_value)
  have "(''grey'', RInt 2) \<in> set (members ButtonStyle_body)" by (simp add: ButtonStyle_members)
  from built_getitem_member[OF bs ButtonStyle_distinct this] obtain g where
    "EnumMeta_call BS (Raw (RInt 2)) = Inr g"
    "find (\<lambda>(n', r'). raw_eq r' (RInt 2)) (members ButtonStyle_body) = Some (sym_name g, sym_value g)"
    by blast
  then have grey: "\<exists>g. EnumMeta_call BS (Raw (RInt 2)) = Inr g \<and> sym_name g = ''grey''"
    by (auto simp: ButtonStyle_members)
  from two_classes[OF bs le_refl refl bc]
  have inst: "\<forall>n s. EnumMeta_getitem BS n = Inr s \<longrightarrow> EnumMeta_instancecheck st2 BC (Sym s) = Inr False"
    by blast
  from bs bc e l call tv tv' grey inst show ?thesis by blast
qed

theorem ButtonColor_empty_witness:
  "\<exists>BS st1 BC st2 s.
     EnumMeta_new st0 ''ButtonStyle'' [] ButtonStyle_body = Inr (BS, st1) \<and>
     EnumMeta_new st1 ''ButtonColor'' [cls_id BS] ButtonColor_body = Inr (BC, st2) \<and>
     EnumMeta_getitem BS ''grey'' = Inr s \<and>
     EnumMeta_instancecheck st2 BC (Sym s) = Inr False \<and>
     EnumMeta_call BC (Raw (RInt 2)) = Inl (ValueError (Raw (RInt 2)) ''ButtonColor'') \<and>
     try_value BC (Raw (RInt 2)) = Inr (Raw (RInt 2)) \<and>
     EnumMeta_len BC = 0"
proof -
  from ButtonColor_empty[of st0 "[]"] obtain BS st1 BC st2 where
    bs: "EnumMeta_new st0 ''ButtonStyle'' [] ButtonStyle_body = Inr (BS, st1)" and
    bc: "EnumMeta_new st1 ''ButtonColor'' [cls_id BS] ButtonColor_body = Inr (BC, st2)" and
    l: "EnumMeta_len BC = 0" and
    call: "\<forall>v. EnumMeta_call BC v = Inl (ValueError v ''ButtonColor'')" and
    tv: "\<forall>v. try_value BC v = Inr v" and
    inst: "\<forall>n s. EnumMeta_getitem BS n = Inr s \<longrightarrow> EnumMeta_instancecheck st2 BC (Sym s) = Inr False"
    by blast
  have "(''grey'', RInt 2) \<in> set (members ButtonStyle_body)" by (simp add: ButtonStyle_members)
  from built_getitem_member[OF bs ButtonStyle_distinct this] obtain s where
    s: "EnumMeta_getitem BS ''grey'' = Inr s" by blast
  with inst have "EnumMeta_instancecheck st2 BC (Sym s) = Inr False" by blast
  with bs bc s l call tv have
    "EnumMeta_new st0 ''ButtonStyle'' [] ButtonStyle_body = Inr (BS, st1) \<and>
     EnumMeta_new st1 ''ButtonColor'' [cls_id BS] ButtonColor_body = Inr (BC, st2) \<and>
     EnumMeta_getitem BS ''grey'' = Inr s \<and>
     EnumMeta_instancecheck st2 BC (Sym s) = Inr False \<and>
     EnumMeta_call BC (Raw (RInt 2)) = Inl (ValueError (Raw (RInt 2)) ''ButtonColor'') \<and>
     try_value BC (Raw (RInt 2)) = Inr (Raw (RInt 2)) \<and>
     EnumMeta_len BC = 0" by simp
  then show ?thesis by - (rule exI)+
qed

lemma ComponentType_new:
  "\<exists>CT st'. EnumMeta_new st ''ComponentType'' bases ComponentType_body = Inr (CT, st') \<and>
     enum_value_map CT =
       [(RInt 1, \<lparr>oid = Suc (next_id st), sym_name = ''ActionRow'', sym_value = RInt 1, vcls = next_id st\<rparr>),
        (RInt 2, \<lparr>oid = Suc (Suc (next_id st)), sym_name = ''Button'', sym_value = RInt 2, vcls = next_id st\<rparr>),
        (RInt 3, \<lparr>oid = Suc (Suc (Suc (next_id st))), sym_name = ''SelectMenu'', sym_value = RInt 3, vcls = next_id st\<rparr>)] \<and>
     (\<exists>c. types st' (next_id st) = Some c \<and>
           dict_getitem (vc_attrs c) ''__eq__'' = Inr (Function ''ComponentType.__eq__''))"
  by (simp add: EnumMeta_new_def ComponentType_body_def create_value_cls_def Let_def
        add_member_def value_map_getitem_def setattr_value_cls_def)

lemma ComponentType_facts:
  "\<exists>CT st' a b c.
     EnumMeta_new st ''ComponentType'' bases ComponentType_body = Inr (CT, st') \<and>
     EnumMeta_iter CT = Inr [a, b, c] \<and>
     EnumMeta_getitem CT ''ActionRow'' = Inr a \<and>
     EnumMeta_getitem CT ''Button'' = Inr b \<and>
     EnumMeta_getitem CT ''SelectMenu'' = Inr c \<and>
     sym_name a = ''ActionRow'' \<and> sym_value a = RInt 1 \<and>
     sym_name b = ''Button'' \<and> sym_value b = RInt 2 \<and>
     sym_name c = ''SelectMenu'' \<and> sym_value c = RInt 3 \<and>
     overrides_eq st' a \<and> overrides_eq st' b \<and> overrides_eq st' c"
proof -
  from ComponentType_new[of st bases] obtain CT st' vc where
    n: "EnumMeta_new st ''ComponentType'' bases ComponentType_body = Inr (CT, st')" and
    vm: "enum_value_map CT =
       [(RInt 1, \<lparr>oid = Suc (next_id st), sym_name = ''ActionRow'', sym_value = RInt 1, vcls = next_id st\<rparr>),
        (RInt 2, \<lparr>oid = Suc (Suc (next_id st)), sym_name = ''Button'', sym_value = RInt 2, vcls = next_id st\<rparr>),
        (RInt 3, \<lparr>oid = Suc (Suc (Suc (next_id st))), sym_name = ''SelectMenu'', sym_value = RInt 3, vcls = next_id st\<rparr>)]" and
    ty: "types st' (next_id st) = Some vc"
        "dict_getitem (vc_attrs vc) ''__eq__'' = Inr (Function ''ComponentType.__eq__'')"
    by blast
  let ?a = "\<lparr>oid = Suc (next_id st), sym_name = ''ActionRow'', sym_value = RInt 1, vcls = next_id st\<rparr>"
  let ?b = "\<lparr>oid = Suc (Suc (next_id st)), sym_name = ''Button'', sym_value = RInt 2, vcls = next_id st\<rparr>"
  let ?c = "\<lparr>oid = Suc (Suc (Suc (next_id st))), sym_name = ''SelectMenu'', sym_value = RInt 3, vcls = next_id st\<rparr>"
  from built_iter(1)[OF n ComponentType_distinct] vm have it: "EnumMeta_iter CT = Inr [?a, ?b, ?c]"
    by simp
  have g: "EnumMeta_getitem CT ''ActionRow'' = Inr ?a" "EnumMeta_getitem CT ''Button'' = Inr ?b"
    "EnumMeta_getitem CT ''SelectMenu'' = Inr ?c"
    by (simp_all add: EnumMeta_new_getitem[OF n ComponentType_distinct] ComponentType_members vm)
  from ty have ov: "overrides_eq st' ?a" "overrides_eq st' ?b" "overrides_eq st' ?c"
    by (simp_all add: overrides_eq_def)
  from n it g ov have
    "EnumMeta_new st ''ComponentType'' bases ComponentType_body = Inr (CT, st') \<and>
     EnumMeta_iter CT = Inr [?a, ?b, ?c] \<and>
     EnumMeta_getitem CT ''ActionRow'' = Inr ?a \<and>
     EnumMeta_getitem CT ''Button'' = Inr ?b \<and>
     EnumMeta_getitem CT ''SelectMenu'' = Inr ?c \<and>
     sym_name ?a = ''ActionRow'' \<and> sym_value ?a = RInt 1 \<and>
     sym_name ?b = ''Button'' \<and> sym_value ?b = RInt 2 \<and>
     sym_name ?c = ''SelectMenu'' \<and> sym_value ?c = RInt 3 \<and>
     overrides_eq st' ?a \<and> overrides_eq st' ?b \<and> overrides_eq st' ?c"
    by simp
  then show ?thesis by - (rule exI)+
qed

lemma ComponentType_eq_eval:
  assumes "overrides_eq st s" and "sym_value s = RInt i"
  shows "py_eq st (Sym s) (Raw (RInt i)) = Inr True"
    and "py_eq st (Sym s) (Raw (RStr (sym_name s))) = Inr True"
    and "py_eq st (Raw (RInt i)) (Sym s) = Inr True"
    and "py_eq st (Raw (RStr (sym_name s))) (Sym s) = Inr True"
    and "py_eq st (Sym s) (Sym s) = Inr True"
    and "j \<noteq> i \<Longrightarrow> py_eq st (Sym s) (Raw (RInt j)) = Inr False"
  using assms by (simp_all add: ComponentType_int_def ComponentType_str_def)

lemma ComponentType_eq_other:
  assumes "overrides_eq st s" and "sym_value s = RInt i"
    and "overrides_eq st t" and "sym_value t = RInt j" and "i \<noteq> j" and "sym_name s \<noteq> sym_name t"
  shows "py_eq st (Sym s) (Sym t) = Inr False"
  using assms by (simp add: ComponentType_int_def ComponentType_str_def)

subsection \<open>Claim C10: the equality of \<^verbatim>\<open>ComponentType\<close>\<close>

text \<open>
  Claim C10, as amended. For every member \<open>s\<close> of \<^verbatim>\<open>ComponentType\<close>, the overridden
  \<^verbatim>\<open>__eq__\<close> makes \<open>s\<close> equal to its integer value and to its name string, on either
  side of \<^verbatim>\<open>==\<close>, and it is reflexive: \<^verbatim>\<open>s == s\<close> is true, because the integer
  \<^verbatim>\<open>int(s)\<close> cannot compare itself with a member and Python then asks the member,
  which compares \<^verbatim>\<open>int(s)\<close> with \<^verbatim>\<open>int(s)\<close>. Two different members are unequal,
  in either order.
\<close>

theorem ComponentType_equality:
  "\<exists>CT st' a b c.
     EnumMeta_new st ''ComponentType'' bases ComponentType_body = Inr (CT, st') \<and>
     EnumMeta_iter CT = Inr [a, b, c] \<and>
     sym_name a = ''ActionRow'' \<and> sym_value a = RInt 1 \<and>
     sym_name b = ''Button'' \<and> sym_value b = RInt 2 \<and>
     sym_name c = ''SelectMenu'' \<and> sym_value c = RInt 3 \<and>
     py_eq st' (Sym a) (Raw (RInt 1)) = Inr True \<and>
     py_eq st' (Sym b) (Raw (RInt 2)) = Inr True \<and>
     py_eq st' (Sym c) (Raw (RInt 3)) = Inr True \<and>
     py_eq st' (Sym a) (Raw (RStr ''ActionRow'')) = Inr True \<and>
     py_eq st' (Sym b) (Raw (RStr ''Button'')) = Inr True \<and>
     py_eq st' (Sym c) (Raw (RStr ''SelectMenu'')) = Inr True \<and>
     py_eq st' (Raw (RInt 1)) (Sym a) = Inr True \<and>
     py_eq st' (Raw (RInt 2)) (Sym b) = Inr True \<and>
     py_eq st' (Raw (RInt 3)) (Sym c) = Inr True \<and>
     py_eq st' (Raw (RStr ''ActionRow'')) (Sym a) = Inr True \<and>
     py_eq st' (Raw (RStr ''Button'')) (Sym b) = Inr True \<and>
     py_eq st' (Raw (RStr ''SelectMenu'')) (Sym c) = Inr True \<and>
     py_eq st' (Sym a) (Sym a) = Inr True \<and>
     py_eq st' (Sym b) (Sym b) = Inr True \<and>
     py_eq st' (Sym c) (Sym c) = Inr True \<and>
     py_eq st' (Sym a) (Sym b) = Inr False \<and>
     py_eq st' (Sym b) (Sym a) = Inr False \<and>
     py_eq st' (Sym a) (Sym c) = Inr False \<and>
     py_eq st' (Sym c) (Sym a) = Inr False \<and>
     py_eq st' (Sym b) (Sym c) = Inr False \<and>
     py_eq st' (Sym c) (Sym b) = Inr False \<and>
     py_eq st' (Sym b) (Raw (RInt 3)) = Inr False"
proof -
  from ComponentType_facts[of st bases] obtain CT st' a b c where
    f: "EnumMeta_new st ''ComponentType'' bases ComponentType_body = Inr (CT, st')"
     "EnumMeta_iter CT = Inr [a, b, c]"
     "sym_name a = ''ActionRow''" "sym_value a = RInt 1"
     "sym_name b = ''Button''" "sym_value b = RInt 2"
     "sym_name c = ''SelectMenu''" "sym_value c = RInt 3" and
    o: "overrides_eq st' a" "overrides_eq st' b" "overrides_eq st' c"
    by blast
  note ea = ComponentType_eq_eval[OF o(1) f(4)]
    and eb = ComponentType_eq_eval[OF o(2) f(6)]
    and ec = ComponentType_eq_eval[OF o(3) f(8)]
  have ab: "py_eq st' (Sym a) (Sym b) = Inr False"
    by (rule ComponentType_eq_other[OF o(1) f(4) o(2) f(6)]) (simp_all add: f)
  have ba: "py_eq st' (Sym b) (Sym a) = Inr False"
    by (rule ComponentType_eq_other[OF o(2) f(6) o(1) f(4)]) (simp_all add: f)
  have ac: "py_eq st' (Sym a) (Sym c) = Inr False"
    by (rule ComponentType_eq_other[OF o(1) f(4) o(3) f(8)]) (simp_all add: f)
  have ca: "py_eq st' (Sym c) (Sym a) = Inr False"
    by (rule ComponentType_eq_other[OF o(3) f(8) o(1) f(4)]) (simp_all add: f)
  have bc: "py_eq st' (Sym b) (Sym c) = Inr False"
    by (rule ComponentType_eq_other[OF o(2) f(6) o(3) f(8)]) (simp_all add: f)
  have cb: "py_eq st' (Sym c) (Sym b) = Inr False"
    by (rule ComponentType_eq_other[OF o(3) f(8) o(2) f(6)]) (simp_all add: f)
  have b3: "py_eq st' (Sym b) (Raw (RInt 3)) = Inr False"
    by (rule eb(6)) simp
  from f ea(1,2,3,4,5) eb(1,2,3,4,5) ec(1,2,3,4,5) ab ba ac ca bc cb b3 have
    "EnumMeta_new st ''ComponentType'' bases ComponentType_body = Inr (CT, st') \<and>
     EnumMeta_iter CT = Inr [a, b, c] \<and>
     sym_name a = ''ActionRow'' \<and> sym_value a = RInt 1 \<and>
     sym_name b = ''Button'' \<and> sym_value b = RInt 2 \<and>
     sym_name c = ''SelectMenu'' \<and> sym_value c = RInt 3 \<and>
     py_eq st' (Sym a) (Raw (RInt 1)) = Inr True \<and>
     py_eq st' (Sym b) (Raw (RInt 2)) = Inr True \<and>
     py_eq st' (Sym c) (Raw (RInt 3)) = Inr True \<and>
     py_eq st' (Sym a) (Raw (RStr ''ActionRow'')) = Inr True \<and>
     py_eq st' (Sym b) (Raw (RStr ''Button'')) = Inr True \<and>
     py_eq st' (Sym c) (Raw (RStr ''SelectMenu'')) = Inr True \<and>
     py_eq st' (Raw (RInt 1)) (Sym a) = Inr True \<and>
     py_eq st' (Raw (RInt 2)) (Sym b) = Inr True \<and>
     py_eq st' (Raw (RInt 3)) (Sym c) = Inr True \<and>
     py_eq st' (Raw (RStr ''ActionRow'')) (Sym a) = Inr True \<and>
     py_eq st' (Raw (RStr ''Button'')) (Sym b) = Inr True \<and>
     py_eq st' (Raw (RStr ''SelectMenu'')) (Sym c) = Inr True \<and>
     py_eq st' (Sym a) (Sym a) = Inr True \<and>
     py_eq st' (Sym b) (Sym b) = Inr True \<and>
     py_eq st' (Sym c) (Sym c) = Inr True \<and>
     py_eq st' (Sym a) (Sym b) = Inr False \<and>
     py_eq st' (Sym b) (Sym a) = Inr False \<and>
     py_eq st' (Sym a) (Sym c) = Inr False \<and>
     py_eq st' (Sym c) (Sym a) = Inr False \<and>
     py_eq st' (Sym b) (Sym c) = Inr False \<and>
     py_eq st' (Sym c) (Sym b) = Inr False \<and>
     py_eq st' (Sym b) (Raw (RInt 3)) = Inr False"
    by simp
  then show ?thesis by - (rule exI)+
qed

text \<open>
  Claim C10 as stated says that \<^verbatim>\<open>s == s\<close> evaluates to false. For the member
  \<^verbatim>\<open>Button\<close> of the class loaded into the empty interpreter it evaluates to true.
\<close>

theorem ComponentType_eq_not_irreflexive:
  "ComponentType_loaded = Inr (ComponentType_class, ComponentType_state) \<and>
   EnumMeta_getitem ComponentType_class ''Button'' = Inr ComponentType_Button \<and>
   sym_name ComponentType_Button = ''Button'' \<and>
   sym_value ComponentType_Button = RInt 2 \<and>
   py_eq ComponentType_state (Sym ComponentType_Button) (Sym ComponentType_Button) = Inr True \<and>
   py_eq ComponentType_state (Sym ComponentType_Button) (Sym ComponentType_Button) \<noteq> Inr False"
proof -
  from ComponentType_facts[of st0 "[]"] obtain CT st' b where
    n: "EnumMeta_new st0 ''ComponentType'' [] ComponentType_body = Inr (CT, st')" and
    g: "EnumMeta_getitem CT ''Button'' = Inr b" and
    v: "sym_name b = ''Button''" "sym_value b = RInt 2" and
    o: "overrides_eq st' b"
    by blast
  from n have l: "ComponentType_loaded = Inr (CT, st')" by (simp add: ComponentType_loaded_def)
  have c: "ComponentType_class = CT" "ComponentType_state = st'"
    unfolding ComponentType_class_def ComponentType_state_def l by simp_all
  have bt: "ComponentType_Button = b"
    unfolding ComponentType_Button_def c g by simp
  from ComponentType_eq_eval(5)[OF o v(2)] l c bt g v show ?thesis by simp
qed

lemma dict_getitem_del: "n \<noteq> k \<Longrightarrow> dict_getitem (dict_del d k) n = dict_getitem d n"
  by (induction d) auto

lemma add_member_attrs:
  assumes "add_member vc key v b = Inr b'"
  shows "\<exists>s. member_mapping b' = dict_set (member_mapping b) key s \<and>
             attrs b' = dict_set (attrs b) key (Member s)"
  using assms
  by (auto simp: add_member_def Let_def split: sum.splits error.splits)

lemma scan_untouched:
  "scan vc items b = Inr b' \<Longrightarrow> n \<notin> fst ` set items \<Longrightarrow>
   dict_getitem (member_mapping b') n = dict_getitem (member_mapping b) n \<and>
   dict_getitem (attrs b') n = dict_getitem (attrs b) n"
proof (induction items arbitrary: b)
  case Nil
  then show ?case by simp
next
  case (Cons kv items)
  obtain key v where kv: "kv = (key, v)" by (cases kv)
  from Cons.prems kv have ne: "key \<noteq> []" and nk: "n \<noteq> key" and nin: "n \<notin> fst ` set items"
    by (auto split: if_splits)
  consider (skip) "scan vc items b = Inr b'"
    | (descr) "scan vc items (b\<lparr>heap := setattr_value_cls (heap b) vc key v,
                         attrs := dict_del (attrs b) key\<rparr>) = Inr b'"
    | (mem) r b1 where "add_member vc key r b = Inr b1" "scan vc items b1 = Inr b'"
    using Cons.prems(1) kv ne by (cases v) (auto split: if_splits sum.splits)
  then show ?case
  proof cases
    case skip
    from Cons.IH[OF skip nin] show ?thesis .
  next
    case descr
    from Cons.IH[OF descr nin] nk show ?thesis by (simp add: dict_getitem_del)
  next
    case mem
    from add_member_attrs[OF mem(1)] obtain s where
      "member_mapping b1 = dict_set (member_mapping b) key s"
      "attrs b1 = dict_set (attrs b) key (Member s)" by blast
    with Cons.IH[OF mem(2) nin] nk show ?thesis by (simp add: dict_getitem_set)
  qed
qed

lemma scan_attrs_member:
  "scan vc items b = Inr b' \<Longrightarrow> distinct (map fst items) \<Longrightarrow>
   map_of (members items) n = Some r \<Longrightarrow>
   \<exists>s. dict_getitem (member_mapping b') n = Inr s \<and> dict_getitem (attrs b') n = Inr (Member s)"
proof (induction items arbitrary: b)
  case Nil
  then show ?case by simp
next
  case (Cons kv items)
  obtain key v where kv: "kv = (key, v)" by (cases kv)
  from Cons.prems kv have ne: "key \<noteq> []" by (auto split: if_splits)
  from Cons.prems kv have dist: "distinct (map fst items)" and fresh: "key \<notin> fst ` set items"
    by auto
  show ?case
  proof (cases "\<exists>r'. v = Plain r' \<and> hd key \<noteq> CHR ''_''")
    case True
    then obtain r' where v: "v = Plain r'" and h: "hd key \<noteq> CHR ''_''" by blast
    with ne kv Cons.prems obtain b1 where
      am: "add_member vc key r' b = Inr b1" and sc: "scan vc items b1 = Inr b'"
      by (auto split: sum.splits)
    have ms: "members (kv # items) = (key, r') # members items"
      using v h ne kv by simp
    show ?thesis
    proof (cases "n = key")
      case True
      from add_member_attrs[OF am] obtain s where
        "member_mapping b1 = dict_set (member_mapping b) key s"
        "attrs b1 = dict_set (attrs b) key (Member s)" by blast
      with scan_untouched[OF sc fresh] True show ?thesis by (simp add: dict_getitem_set)
    next
      case False
      with Cons.prems(3) ms have "map_of (members items) n = Some r" by simp
      from Cons.IH[OF sc dist this] show ?thesis .
    qed
  next
    case False
    then have ms: "members (kv # items) = members items"
      using kv ne by (cases v) auto
    from False ne kv Cons.prems obtain b1 where
      sc: "scan vc items b1 = Inr b'"
      by (cases v) (auto split: if_splits)
    from Cons.prems(3) ms have "map_of (members items) n = Some r" by simp
    from Cons.IH[OF sc dist this] show ?thesis .
  qed
qed

lemma EnumMeta_new_class_getattr:
  assumes n: "EnumMeta_new st nm bases body = Inr (cls, st')" and d: "distinct (map fst body)"
    and m: "(k, r) \<in> set (members body)"
  shows "\<exists>s. EnumMeta_getitem cls k = Inr s \<and> class_getattr cls k = Inr (Member s)"
proof -
  from n obtain b where
    sc: "scan (next_id st) body (init_builder st nm body) = Inr b" and
    mm: "enum_member_map cls = member_mapping b" and
    cd: "cls_dict cls = attrs b"
    by (auto simp: EnumMeta_new_def create_value_cls_def init_builder_def Let_def
           split: sum.splits option.splits)
  from members_sublist[OF d] m have "map_of (members body) k = Some r" by simp
  from scan_attrs_member[OF sc d this] mm cd show ?thesis
    by (auto simp: EnumMeta_getitem_def class_getattr_def)
qed

lemma first_declared_id:
  "distinct (map (canon \<circ> snd) ms) \<Longrightarrow> canon ` set seen \<inter> canon ` snd ` set ms = {} \<Longrightarrow>
   first_declared seen ms = ms"
proof (induction ms arbitrary: seen)
  case Nil
  then show ?case by simp
next
  case (Cons a ms)
  obtain n v where a: "a = (n, v)" by (cases a)
  from Cons.prems a have nv: "canon v \<notin> canon ` set seen" by auto
  then have ns: "\<not> (\<exists>k \<in> set seen. raw_eq k v)" by (simp add: seen_iff)
  from Cons.prems a have "canon ` set (seen @ [v]) \<inter> canon ` snd ` set ms = {}"
    by (auto simp: image_iff)
  moreover from Cons.prems a have "distinct (map (canon \<circ> snd) ms)" by (simp add: comp_def)
  ultimately have "first_declared (seen @ [v]) ms = ms" by (rule Cons.IH[rotated])
  with ns a show ?case by simp
qed

lemma sdict_set_eq:
  "\<forall>k \<in> fst ` set d. sym_key_matches k q \<longleftrightarrow> k = q \<Longrightarrow> sdict_set d q v = dict_set d q v"
  by (induction d) auto

lemma sdict_getitem_eq:
  "\<forall>k \<in> fst ` set d. sym_key_matches k q \<longleftrightarrow> k = q \<Longrightarrow>
   sdict_getitem d q = (case map_of d q of Some v \<Rightarrow> Inr v | None \<Rightarrow> Inl KeyError)"
  by (induction d) auto

lemma dict_set_fresh: "k \<notin> fst ` set d \<Longrightarrow> dict_set d k v = d @ [(k, v)]"
  by (induction d) auto

lemma build_lookup_entries:
  assumes K: "\<forall>s \<in> K. \<forall>t \<in> K. sym_key_matches s t \<longleftrightarrow> s = t"
  shows "\<forall>(n, c) \<in> set es. class_getattr A n = Inr (Member (k n)) \<and> k n \<in> K \<and>
            (\<forall>cn. c = Some cn \<longrightarrow> class_getattr C cn = Inr (Member (kc cn))) \<Longrightarrow>
         fst ` set d \<subseteq> K \<Longrightarrow>
         distinct (map fst d @ map (\<lambda>(n, c). k n) es) \<Longrightarrow>
         build_lookup A C es d = Inr (d @ map (\<lambda>(n, c). (k n, entry_value kc c)) es)"
proof (induction es arbitrary: d)
  case Nil
  then show ?case by simp
next
  case (Cons e es)
  obtain n c where e: "e = (n, c)" by (cases e)
  from Cons.prems(1) e have g: "class_getattr A n = Inr (Member (k n))" and kK: "k n \<in> K"
    and gc: "\<forall>cn. c = Some cn \<longrightarrow> class_getattr C cn = Inr (Member (kc cn))" by auto
  from Cons.prems(1) have rest: "\<forall>(n, c) \<in> set es. class_getattr A n = Inr (Member (k n)) \<and> k n \<in> K \<and>
            (\<forall>cn. c = Some cn \<longrightarrow> class_getattr C cn = Inr (Member (kc cn)))" by auto
  from Cons.prems(3) e have fresh: "k n \<notin> fst ` set d" by auto
  from Cons.prems(2) kK K have "\<forall>k' \<in> fst ` set d. sym_key_matches k' (k n) \<longleftrightarrow> k' = k n"
    by blast
  then have set_eq: "sdict_set d (k n) v = d @ [(k n, v)]" for v
    by (simp add: sdict_set_eq dict_set_fresh[OF fresh])
  let ?d' = "d @ [(k n, entry_value kc c)]"
  from Cons.prems(2) kK have sub: "fst ` set ?d' \<subseteq> K" by auto
  from Cons.prems(3) e have dist: "distinct (map fst ?d' @ map (\<lambda>(n, c). k n) es)" by auto
  from Cons.IH[OF rest sub dist]
  have ih: "build_lookup A C es ?d' = Inr (?d' @ map (\<lambda>(n, c). (k n, entry_value kc c)) es)" .
  show ?case
  proof (cases c)
    case None
    with e g ih set_eq show ?thesis by (simp add: entry_value_def)
  next
    case (Some cn)
    with gc have "class_getattr C cn = Inr (Member (kc cn))" by simp
    with Some e g ih set_eq show ?thesis by (simp add: entry_value_def)
  qed
qed

lemma category_lookup:
  assumes K: "\<forall>s \<in> K. \<forall>t \<in> K. sym_key_matches s t \<longleftrightarrow> s = t"
    and res: "\<forall>(n, c) \<in> set category_table. class_getattr A n = Inr (Member (k n)) \<and> k n \<in> K \<and>
            (\<forall>cn. c = Some cn \<longrightarrow> class_getattr C cn = Inr (Member (kc cn)))"
    and inj: "distinct (map (\<lambda>(n, c). k n) category_table)"
    and self: "self \<in> K"
  shows "AuditLogAction_category A C self =
     (case map_of (map (\<lambda>(n, c). (k n, entry_value kc c)) category_table) self of
        Some v \<Rightarrow> Inr v | None \<Rightarrow> Inl KeyError)"
proof -
  have "build_lookup A C category_table [] =
        Inr ([] @ map (\<lambda>(n, c). (k n, entry_value kc c)) category_table)"
    by (rule build_lookup_entries[OF K res]) (use inj in simp_all)
  moreover have "fst ` set (map (\<lambda>(n, c). (k n, entry_value kc c)) category_table) \<subseteq> K"
    using res by auto
  with K self have "\<forall>k' \<in> fst ` set (map (\<lambda>(n, c). (k n, entry_value kc c)) category_table).
      sym_key_matches k' self \<longleftrightarrow> k' = self" by blast
  ultimately show ?thesis
    by (simp add: AuditLogAction_category_def sdict_getitem_eq)
qed

lemma first_declared_names:
  "distinct (map fst ms) \<Longrightarrow> distinct (map fst (first_declared seen ms))"
proof (induction ms arbitrary: seen)
  case Nil
  then show ?case by simp
next
  case (Cons a ms)
  obtain n v where a: "a = (n, v)" by (cases a)
  from Cons.prems a have n: "n \<notin> fst ` set ms" and d: "distinct (map fst ms)" by auto
  from n first_declared_subset[of "seen @ [v]" ms]
  have "n \<notin> fst ` set (first_declared (seen @ [v]) ms)" by auto
  with Cons.IH[OF d] a show ?case by simp
qed

lemma built_key_identity:
  assumes n: "EnumMeta_new st nm bases body = Inr (cls, st')" and d: "distinct (map fst body)"
    and s: "s \<in> snd ` set (enum_value_map cls)" and t: "t \<in> snd ` set (enum_value_map cls)"
  shows "sym_key_matches s t \<longleftrightarrow> s = t"
proof
  assume "s = t"
  then show "sym_key_matches s t" by (simp add: sym_key_matches_def)
next
  note b = EnumMeta_new_built[OF n]
  let ?ss = "map snd (enum_value_map cls)"
  from built_oids_distinct[OF b] have "distinct (map oid ?ss)"
    by (simp add: case_prod_unfold comp_def)
  then have io: "inj_on oid (set ?ss)" by (metis distinct_map)
  from s t have sin: "s \<in> set ?ss" "t \<in> set ?ss" by simp_all
  have "map sym_name ?ss = map fst (map (\<lambda>s. (sym_name s, sym_value s)) ?ss)"
    by (simp add: comp_def)
  also have "\<dots> = map fst (first_declared [] (members body))"
    by (simp only: built_pairs[OF b])
  finally have "distinct (map sym_name ?ss)"
    using first_declared_names[OF members_sublist[OF d], of "[]"] by simp
  then have inm: "inj_on sym_name (set ?ss)" by (metis distinct_map)
  assume "sym_key_matches s t"
  then consider "oid s = oid t" | "sym_name s = sym_name t"
    by (auto simp: sym_key_matches_def)
  then show "s = t"
  proof cases
    case 1
    from inj_onD[OF io 1 sin] show ?thesis .
  next
    case 2
    from inj_onD[OF inm 2 sin] show ?thesis .
  qed
qed

lemma find_first_distinct:
  "distinct (map (canon \<circ> snd) ms) \<Longrightarrow> (n, r) \<in> set ms \<Longrightarrow>
   find (\<lambda>(n', r'). raw_eq r' r) ms = Some (n, r)"
proof (induction ms)
  case Nil
  then show ?case by simp
next
  case (Cons a ms)
  obtain n' v where a: "a = (n', v)" by (cases a)
  show ?case
  proof (cases "(n, r) = (n', v)")
    case True
    with a show ?thesis by (simp add: raw_eq_refl)
  next
    case False
    with Cons.prems a have mem: "(n, r) \<in> set ms" by auto
    then have "(canon \<circ> snd) (n, r) \<in> (canon \<circ> snd) ` set ms" by (rule imageI)
    then have inr: "canon r \<in> (canon \<circ> snd) ` set ms" by simp
    from Cons.prems(1) a have "canon v \<notin> (canon \<circ> snd) ` set ms" by simp
    with inr have nv: "canon v \<noteq> canon r" by metis
    from Cons.prems(1) have "distinct (map (canon \<circ> snd) ms)" by (simp add: comp_def)
    from Cons.IH[OF this mem] nv a show ?thesis by (simp add: raw_eq_canon)
  qed
qed

lemma member_by_name:
  assumes n: "EnumMeta_new st nm bases body = Inr (cls, st')" and d: "distinct (map fst body)"
    and na: "distinct (map (canon \<circ> snd) (members body))"
    and m: "(k, r) \<in> set (members body)"
  shows "\<exists>s. EnumMeta_getitem cls k = Inr s \<and> class_getattr cls k = Inr (Member s) \<and>
             s \<in> snd ` set (enum_value_map cls) \<and> sym_name s = k \<and> sym_value s = r"
proof -
  from built_getitem_member[OF n d m] obtain s where
    s: "EnumMeta_getitem cls k = Inr s" "value_map_find (enum_value_map cls) (Raw r) = Some s"
       "find (\<lambda>(n', r'). raw_eq r' r) (members body) = Some (sym_name s, sym_value s)"
    by blast
  from EnumMeta_new_class_getattr[OF n d m] s(1) have g: "class_getattr cls k = Inr (Member s)"
    by auto
  from find_first_distinct[OF na m] s(3) have "sym_name s = k" "sym_value s = r" by simp_all
  with s(1) g value_map_find_mem[OF s(2)] show ?thesis
    by (intro exI[of _ s]) simp
qed

lemma map_of_injective_keys:
  "inj_on k (fst ` set es) \<Longrightarrow> distinct (map fst es) \<Longrightarrow> (n, c) \<in> set es \<Longrightarrow>
   map_of (map (\<lambda>(n, c). (k n, f c)) es) (k n) = Some (f c)"
proof (induction es)
  case Nil
  then show ?case by simp
next
  case (Cons e es)
  obtain n' c' where e: "e = (n', c')" by (cases e)
  show ?case
  proof (cases "n = n'")
    case True
    with Cons.prems e have "c = c'" by (auto simp: image_iff)
    with True e show ?thesis by simp
  next
    case False
    with Cons.prems e have mem: "(n, c) \<in> set es" by auto
    then have "n \<in> fst ` set (e # es)" by force
    moreover have "n' \<in> fst ` set (e # es)" using e by simp
    ultimately have "k n \<noteq> k n'" using inj_onD[OF Cons.prems(1)] False by blast
    moreover have "inj_on k (fst ` set es)"
      by (rule inj_on_subset[OF Cons.prems(1)]) auto
    moreover from Cons.prems(2) have "distinct (map fst es)" by simp
    ultimately show ?thesis using Cons.IH mem e by simp
  qed
qed

lemma category_of_member:
  assumes newC: "EnumMeta_new st nmC basesC bodyC = Inr (Cat, st1)"
    and dC: "distinct (map fst bodyC)"
    and naC: "distinct (map (canon \<circ> snd) (members bodyC))"
    and newA: "EnumMeta_new st1' nmA basesA bodyA = Inr (Act, st2)"
    and dA: "distinct (map fst bodyA)"
    and naA: "distinct (map (canon \<circ> snd) (members bodyA))"
    and names: "map fst category_table = map fst (members bodyA)"
    and cats: "\<forall>(n, c) \<in> set category_table. \<forall>cn. c = Some cn \<longrightarrow> cn \<in> fst ` set (members bodyC)"
    and g: "EnumMeta_getitem Act n = Inr s" and e: "(n, c) \<in> set category_table"
  shows "AuditLogAction_category Act Cat s =
     (case c of
        None \<Rightarrow> Inr (Raw RNone)
      | Some cn \<Rightarrow> (case EnumMeta_getitem Cat cn of Inr x \<Rightarrow> Inr (Sym x) | Inl e \<Rightarrow> Inl e))"
proof -
  let ?K = "snd ` set (enum_value_map Act)"
  let ?k = "\<lambda>n. projr (EnumMeta_getitem Act n)"
  let ?kc = "\<lambda>cn. projr (EnumMeta_getitem Cat cn)"
  have K: "\<forall>s \<in> ?K. \<forall>t \<in> ?K. sym_key_matches s t \<longleftrightarrow> s = t"
    using built_key_identity[OF newA dA] by blast
  have kA: "class_getattr Act n = Inr (Member (?k n)) \<and> ?k n \<in> ?K \<and> sym_name (?k n) = n"
    if "n \<in> fst ` set category_table" for n
  proof -
    from that names have "n \<in> fst ` set (members bodyA)"
      by (metis set_map)
    then obtain r where "(n, r) \<in> set (members bodyA)" by auto
    from member_by_name[OF newA dA naA this] obtain x where
      "EnumMeta_getitem Act n = Inr x" "class_getattr Act n = Inr (Member x)"
      "x \<in> snd ` set (enum_value_map Act)" "sym_name x = n" by blast
    then show ?thesis by simp
  qed
  have kC: "class_getattr Cat cn = Inr (Member (?kc cn)) \<and> EnumMeta_getitem Cat cn = Inr (?kc cn)"
    if "cn \<in> fst ` set (members bodyC)" for cn
  proof -
    from that obtain r where "(cn, r) \<in> set (members bodyC)" by auto
    from member_by_name[OF newC dC naC this] obtain x where
      "EnumMeta_getitem Cat cn = Inr x" "class_getattr Cat cn = Inr (Member x)" by blast
    then show ?thesis by simp
  qed
  have res: "\<forall>(n, c) \<in> set category_table. class_getattr Act n = Inr (Member (?k n)) \<and> ?k n \<in> ?K \<and>
            (\<forall>cn. c = Some cn \<longrightarrow> class_getattr Cat cn = Inr (Member (?kc cn)))"
  proof (clarify, intro conjI allI impI)
    fix n c assume m: "(n, c) \<in> set category_table"
    then have "n \<in> fst ` set category_table" by force
    from kA[OF this] show "class_getattr Act n = Inr (Member (?k n))" "?k n \<in> ?K" by simp_all
    fix cn assume "c = Some cn"
    with cats m have "cn \<in> fst ` set (members bodyC)" by blast
    from kC[OF this] show "class_getattr Cat cn = Inr (Member (?kc cn))" by simp
  qed
  have injk: "inj_on ?k (fst ` set category_table)"
  proof (rule inj_onI)
    fix x y assume "x \<in> fst ` set category_table" "y \<in> fst ` set category_table" "?k x = ?k y"
    with kA[of x] kA[of y] show "x = y" by metis
  qed
  have dn: "distinct (map fst category_table)"
    using names members_sublist[OF dA] by simp
  have meq: "map (\<lambda>(n, c). ?k n) category_table = map ?k (map fst category_table)"
    by (simp add: case_prod_unfold comp_def)
  from injk have "inj_on ?k (set (map fst category_table))" by (simp only: set_map)
  with dn have "distinct (map ?k (map fst category_table))" by (metis distinct_map)
  then have inj: "distinct (map (\<lambda>(n, c). ?k n) category_table)" by (simp only: meq)
  from e have nin: "n \<in> fst ` set category_table" by force
  from g have sk: "s = ?k n" by simp
  with kA[OF nin] have self: "s \<in> ?K" by simp
  from category_lookup[OF K res inj self]
       map_of_injective_keys[OF injk dn e, of "entry_value ?kc"] sk
  have c1: "AuditLogAction_category Act Cat s = Inr (entry_value ?kc c)" by simp
  show ?thesis
  proof (cases c)
    case None
    with c1 show ?thesis by (simp add: entry_value_def)
  next
    case (Some cn)
    with cats e have "cn \<in> fst ` set (members bodyC)" by blast
    from kC[OF this] obtain x where x: "EnumMeta_getitem Cat cn = Inr x" by blast
    from c1 Some show ?thesis by (simp add: entry_value_def x)
  qed
qed

lemma AuditLogAction_members:
  "members AuditLogAction_body =
     [(''guild_update'', RInt 1), (''channel_create'', RInt 10), (''channel_update'', RInt 11),
      (''channel_delete'', RInt 12), (''overwrite_create'', RInt 13),
      (''overwrite_update'', RInt 14), (''overwrite_delete'', RInt 15), (''kick'', RInt 20),
      (''member_prune'', RInt 21), (''ban'', RInt 22), (''unban'', RInt 23),
      (''member_update'', RInt 24), (''member_role_update'', RInt 25),
      (''member_move'', RInt 26), (''member_disconnect'', RInt 27), (''bot_add'', RInt 28),
      (''role_create'', RInt 30), (''role_update'', RInt 31), (''role_delete'', RInt 32),
      (''invite_create'', RInt 40), (''invite_update'', RInt 41), (''invite_delete'', RInt 42),
      (''webhook_create'', RInt 50), (''webhook_update'', RInt 51), (''webhook_delete'', RInt 52),
      (''emoji_create'', RInt 60), (''emoji_update'', RInt 61), (''emoji_delete'', RInt 62),
      (''message_delete'', RInt 72), (''message_bulk_delete'', RInt 73),
      (''message_pin'', RInt 74), (''message_unpin'', RInt 75),
      (''integration_create'', RInt 80), (''integration_update'', RInt 81),
      (''integration_delete'', RInt 82)]"
  by (simp add: AuditLogAction_body_def)

lemma AuditLogAction_well_formed: "well_formed_body AuditLogAction_body"
  unfolding well_formed_body_def AuditLogAction_members by (simp add: AuditLogAction_body_def)

lemma AuditLogAction_distinct: "distinct (map fst AuditLogAction_body)"
  by (simp add: AuditLogAction_body_def)

lemma AuditLogAction_no_alias: "distinct (map (canon \<circ> snd) (members AuditLogAction_body))"
  unfolding AuditLogAction_members by simp

lemma AuditLogAction_values:
  "\<forall>(n, r) \<in> set (members AuditLogAction_body). \<exists>v. r = RInt v \<and> 0 \<le> v \<and> v < 90"
  unfolding AuditLogAction_members by simp

lemma AuditLogActionCategory_members:
  "members AuditLogActionCategory_body =
     [(''create'', RInt 1), (''delete'', RInt 2), (''update'', RInt 3)]"
  by (simp add: AuditLogActionCategory_body_def)

lemma AuditLogActionCategory_well_formed: "well_formed_body AuditLogActionCategory_body"
  unfolding well_formed_body_def AuditLogActionCategory_members
  by (simp add: AuditLogActionCategory_body_def)

lemma AuditLogActionCategory_distinct: "distinct (map fst AuditLogActionCategory_body)"
  by (simp add: AuditLogActionCategory_body_def)

lemma AuditLogActionCategory_no_alias:
  "distinct (map (canon \<circ> snd) (members AuditLogActionCategory_body))"
  unfolding AuditLogActionCategory_members by simp

lemma category_table_names: "map fst category_table = map fst (members AuditLogAction_body)"
  unfolding AuditLogAction_members by (simp add: category_table_def)

lemma category_table_values:
  "\<forall>(n, c) \<in> set category_table. \<forall>cn. c = Some cn \<longrightarrow>
      cn \<in> fst ` set (members AuditLogActionCategory_body)"
  unfolding AuditLogActionCategory_members by (simp add: category_table_def)

lemma category_table_spec: "map snd category_table = map (spec_category \<circ> fst) category_table"
  by (simp add: category_table_def spec_category_def ends_with_def)

lemma category_table_none:
  "filter (\<lambda>n. spec_category n = None) (map fst category_table) =
     [''kick'', ''member_prune'', ''ban'', ''unban'', ''member_move'', ''member_disconnect'',
      ''bot_add'', ''message_pin'', ''message_unpin'']"
  by (simp add: category_table_def spec_category_def ends_with_def)

lemma target_type_bucket:
  assumes "sym_value s = RInt v" and "0 \<le> v" and "v < 90"
  shows "AuditLogAction_target_type s = Inr (Raw (RStr (spec_target_names ! nat (v div 10))))"
proof -
  from assms(2,3) consider "v < 10" | "10 \<le> v \<and> v < 20" | "20 \<le> v \<and> v < 30"
    | "30 \<le> v \<and> v < 40" | "40 \<le> v \<and> v < 50" | "50 \<le> v \<and> v < 60"
    | "60 \<le> v \<and> v < 70" | "70 \<le> v \<and> v < 80" | "80 \<le> v \<and> v < 90"
    by linarith
  then show ?thesis
  proof cases
    case 1
    with assms(2) have "v div 10 = 0" by presburger
    with 1 assms show ?thesis
      by (simp add: AuditLogAction_target_type_def spec_target_names_def)
  next
    case 2
    then have "v div 10 = 1" by presburger
    with 2 assms show ?thesis
      by (simp add: AuditLogAction_target_type_def spec_target_names_def)
  next
    case 3
    then have "v div 10 = 2" by presburger
    with 3 assms show ?thesis
      by (simp add: AuditLogAction_target_type_def spec_target_names_def)
  next
    case 4
    then have "v div 10 = 3" by presburger
    with 4 assms show ?thesis
      by (simp add: AuditLogAction_target_type_def spec_target_names_def)
  next
    case 5
    then have "v div 10 = 4" by presburger
    with 5 assms show ?thesis
      by (simp add: AuditLogAction_target_type_def spec_target_names_def)
  next
    case 6
    then have "v div 10 = 5" by presburger
    with 6 assms show ?thesis
      by (simp add: AuditLogAction_target_type_def spec_target_names_def)
  next
    case 7
    then have "v div 10 = 6" by presburger
    with 7 assms show ?thesis
      by (simp add: AuditLogAction_target_type_def spec_target_names_def)
  next
    case 8
    then have "v div 10 = 7" by presburger
    with 8 assms show ?thesis
      by (simp add: AuditLogAction_target_type_def spec_target_names_def)
  next
    case 9
    then have "v div 10 = 8" by presburger
    with 9 assms show ?thesis
      by (simp add: AuditLogAction_target_type_def spec_target_names_def)
  qed
qed

lemma target_type_guild:
  assumes "sym_value s = RInt v" and "v < 10" and "v \<noteq> - 1"
  shows "AuditLogAction_target_type s = Inr (Raw (RStr ''guild''))"
  using assms by (simp add: AuditLogAction_target_type_def)

lemma target_type_other:
  "sym_value s = RInt (- 1) \<Longrightarrow> AuditLogAction_target_type s = Inr (Raw (RStr ''all''))"
  "sym_value s = RInt v \<Longrightarrow> 90 \<le> v \<Longrightarrow> AuditLogAction_target_type s = Inr (Raw RNone)"
  by (simp_all add: AuditLogAction_target_type_def)

lemma audit_classes:
  "\<exists>Cat st1 Act st2.
     EnumMeta_new st ''AuditLogActionCategory'' basesC AuditLogActionCategory_body = Inr (Cat, st1) \<and>
     EnumMeta_new st1 ''AuditLogAction'' basesA AuditLogAction_body = Inr (Act, st2)"
  using EnumMeta_new_succeeds[OF AuditLogActionCategory_well_formed]
        EnumMeta_new_succeeds[OF AuditLogAction_well_formed]
  by metis

lemma audit_category:
  assumes c: "EnumMeta_new st ''AuditLogActionCategory'' basesC AuditLogActionCategory_body = Inr (Cat, st1)"
    and a: "EnumMeta_new st1 ''AuditLogAction'' basesA AuditLogAction_body = Inr (Act, st2)"
    and s: "s \<in> set (map snd (enum_value_map Act))"
  shows "AuditLogAction_category Act Cat s =
     (case spec_category (sym_name s) of
        None \<Rightarrow> Inr (Raw RNone)
      | Some cn \<Rightarrow> (case EnumMeta_getitem Cat cn of Inr x \<Rightarrow> Inr (Sym x) | Inl e \<Rightarrow> Inl e))"
proof -
  from built_names_index[OF a AuditLogAction_distinct s]
  have g: "EnumMeta_getitem Act (sym_name s) = Inr s" by (simp add: EnumMeta_getitem_def)
  have "(sym_name s, sym_value s) \<in> set (map (\<lambda>s. (sym_name s, sym_value s)) (map snd (enum_value_map Act)))"
    using s by force
  then have "(sym_name s, sym_value s) \<in> set (first_declared [] (members AuditLogAction_body))"
    by (simp only: built_pairs[OF EnumMeta_new_built[OF a]])
  with first_declared_subset have "(sym_name s, sym_value s) \<in> set (members AuditLogAction_body)"
    by blast
  then have "sym_name s \<in> set (map fst (members AuditLogAction_body))" by force
  then have "sym_name s \<in> set (map fst category_table)" by (simp only: category_table_names)
  then obtain c where e: "(sym_name s, c) \<in> set category_table" by auto
  then obtain i where i: "i < length category_table" "category_table ! i = (sym_name s, c)"
    by (auto simp: in_set_conv_nth)
  from i have "map snd category_table ! i = c" by simp
  moreover from i have "map (spec_category \<circ> fst) category_table ! i = spec_category (sym_name s)"
    by simp
  ultimately have sc: "spec_category (sym_name s) = c" by (simp only: category_table_spec)
  from category_of_member[OF c AuditLogActionCategory_distinct AuditLogActionCategory_no_alias
        a AuditLogAction_distinct AuditLogAction_no_alias category_table_names
        category_table_values g e] sc
  show ?thesis by simp
qed

lemma filter_map_cong_names:
  "\<forall>s \<in> set ss. P s \<longleftrightarrow> Q (sym_name s) \<Longrightarrow>
   map sym_name (filter P ss) = filter Q (map sym_name ss)"
  by (induction ss) auto

subsection \<open>Claim C7: the derived properties of \<^verbatim>\<open>AuditLogAction\<close>\<close>

text \<open>
  Claim C7. For every member of \<^verbatim>\<open>AuditLogAction\<close>, \<^verbatim>\<open>category\<close> and
  \<^verbatim>\<open>target_type\<close> are functions of the member alone (they take and return no
  interpreter state). The category is the member \<^verbatim>\<open>create\<close>, \<^verbatim>\<open>update\<close> or
  \<^verbatim>\<open>delete\<close> of \<^verbatim>\<open>AuditLogActionCategory\<close> when the name of the member ends in
  \<^verbatim>\<open>_create\<close>, \<^verbatim>\<open>_update\<close> or \<^verbatim>\<open>_delete\<close>, and \<^verbatim>\<open>None\<close> for the nine members
  \<^verbatim>\<open>kick\<close>, \<^verbatim>\<open>member_prune\<close>, \<^verbatim>\<open>ban\<close>, \<^verbatim>\<open>unban\<close>, \<^verbatim>\<open>member_move\<close>,
  \<^verbatim>\<open>member_disconnect\<close>, \<^verbatim>\<open>bot_add\<close>, \<^verbatim>\<open>message_pin\<close> and \<^verbatim>\<open>message_unpin\<close>. The
  target type is given by the tens of the value: below 10 \<^verbatim>\<open>guild\<close>, then
  \<^verbatim>\<open>channel\<close>, \<^verbatim>\<open>user\<close>, \<^verbatim>\<open>role\<close>, \<^verbatim>\<open>invite\<close>, \<^verbatim>\<open>webhook\<close>, \<^verbatim>\<open>emoji\<close>,
  \<^verbatim>\<open>message\<close> and, for 80 to 89, \<^verbatim>\<open>integration\<close>.
\<close>

theorem AuditLogAction_properties:
  "\<exists>Cat st1 Act st2 ss cr up de.
     EnumMeta_new st ''AuditLogActionCategory'' basesC AuditLogActionCategory_body = Inr (Cat, st1) \<and>
     EnumMeta_new st1 ''AuditLogAction'' basesA AuditLogAction_body = Inr (Act, st2) \<and>
     EnumMeta_getitem Cat ''create'' = Inr cr \<and> sym_name cr = ''create'' \<and>
     EnumMeta_getitem Cat ''update'' = Inr up \<and> sym_name up = ''update'' \<and>
     EnumMeta_getitem Cat ''delete'' = Inr de \<and> sym_name de = ''delete'' \<and>
     EnumMeta_iter Act = Inr ss \<and>
     map (\<lambda>s. (sym_name s, sym_value s)) ss = members AuditLogAction_body \<and>
     length ss = 35 \<and>
     (\<forall>s \<in> set ss.
        AuditLogAction_category Act Cat s =
          (case spec_category (sym_name s) of
             None \<Rightarrow> Inr (Raw RNone)
           | Some cn \<Rightarrow> (case EnumMeta_getitem Cat cn of Inr x \<Rightarrow> Inr (Sym x) | Inl e \<Rightarrow> Inl e))) \<and>
     map sym_name (filter (\<lambda>s. AuditLogAction_category Act Cat s = Inr (Raw RNone)) ss) =
       [''kick'', ''member_prune'', ''ban'', ''unban'', ''member_move'', ''member_disconnect'',
        ''bot_add'', ''message_pin'', ''message_unpin''] \<and>
     (\<forall>s \<in> set ss. \<exists>v. sym_value s = RInt v \<and> 0 \<le> v \<and> v < 90 \<and>
        AuditLogAction_target_type s = Inr (Raw (RStr (spec_target_names ! nat (v div 10))))) \<and>
     (\<forall>s v. sym_value s = RInt v \<longrightarrow> 0 \<le> v \<longrightarrow> v < 90 \<longrightarrow>
        AuditLogAction_target_type s = Inr (Raw (RStr (spec_target_names ! nat (v div 10))))) \<and>
     (\<forall>s v. sym_value s = RInt v \<longrightarrow> v < 10 \<longrightarrow> v \<noteq> - 1 \<longrightarrow>
        AuditLogAction_target_type s = Inr (Raw (RStr ''guild'')))"
proof -
  from audit_classes[of st basesC basesA] obtain Cat st1 Act st2 where
    c: "EnumMeta_new st ''AuditLogActionCategory'' basesC AuditLogActionCategory_body = Inr (Cat, st1)" and
    a: "EnumMeta_new st1 ''AuditLogAction'' basesA AuditLogAction_body = Inr (Act, st2)"
    by blast
  let ?ss = "map snd (enum_value_map Act)"
  note bA = EnumMeta_new_built[OF a]
  have it: "EnumMeta_iter Act = Inr ?ss" by (rule built_iter(1)[OF a AuditLogAction_distinct])
  have fd: "first_declared [] (members AuditLogAction_body) = members AuditLogAction_body"
    by (rule first_declared_id[OF AuditLogAction_no_alias]) simp
  from built_pairs[OF bA] fd
  have pairs: "map (\<lambda>s. (sym_name s, sym_value s)) ?ss = members AuditLogAction_body" by simp
  then have "length (map (\<lambda>s. (sym_name s, sym_value s)) ?ss) = length (members AuditLogAction_body)"
    by simp
  then have len: "length ?ss = 35" by (simp add: AuditLogAction_members)
  have names: "map sym_name ?ss = map fst category_table"
  proof -
    have "map sym_name ?ss = map fst (map (\<lambda>s. (sym_name s, sym_value s)) ?ss)"
      by (simp add: comp_def)
    then show ?thesis by (simp only: pairs category_table_names)
  qed
  have cat: "\<forall>s \<in> set ?ss.
        AuditLogAction_category Act Cat s =
          (case spec_category (sym_name s) of
             None \<Rightarrow> Inr (Raw RNone)
           | Some cn \<Rightarrow> (case EnumMeta_getitem Cat cn of Inr x \<Rightarrow> Inr (Sym x) | Inl e \<Rightarrow> Inl e))"
    using audit_category[OF c a] by blast
  have m1: "(''create'', RInt 1) \<in> set (members AuditLogActionCategory_body)"
    and m2: "(''update'', RInt 3) \<in> set (members AuditLogActionCategory_body)"
    and m3: "(''delete'', RInt 2) \<in> set (members AuditLogActionCategory_body)"
    by (simp_all add: AuditLogActionCategory_members)
  from member_by_name[OF c AuditLogActionCategory_distinct AuditLogActionCategory_no_alias m1]
  obtain cr where cr: "EnumMeta_getitem Cat ''create'' = Inr cr" "sym_name cr = ''create''" by blast
  from member_by_name[OF c AuditLogActionCategory_distinct AuditLogActionCategory_no_alias m2]
  obtain up where up: "EnumMeta_getitem Cat ''update'' = Inr up" "sym_name up = ''update''" by blast
  from member_by_name[OF c AuditLogActionCategory_distinct AuditLogActionCategory_no_alias m3]
  obtain de where de: "EnumMeta_getitem Cat ''delete'' = Inr de" "sym_name de = ''delete''" by blast
  have none_iff: "\<forall>s \<in> set ?ss.
      AuditLogAction_category Act Cat s = Inr (Raw RNone) \<longleftrightarrow> spec_category (sym_name s) = None"
  proof
    fix s assume s: "s \<in> set ?ss"
    from cat s have eq: "AuditLogAction_category Act Cat s =
          (case spec_category (sym_name s) of
             None \<Rightarrow> Inr (Raw RNone)
           | Some cn \<Rightarrow> (case EnumMeta_getitem Cat cn of Inr x \<Rightarrow> Inr (Sym x) | Inl e \<Rightarrow> Inl e))"
      by blast
    consider "spec_category (sym_name s) = None" | "spec_category (sym_name s) = Some ''create''"
      | "spec_category (sym_name s) = Some ''update''" | "spec_category (sym_name s) = Some ''delete''"
      unfolding spec_category_def by presburger
    then show "AuditLogAction_category Act Cat s = Inr (Raw RNone) \<longleftrightarrow> spec_category (sym_name s) = None"
    proof cases
      case 1
      with eq show ?thesis by simp
    next
      case 2
      with eq cr(1) show ?thesis by simp
    next
      case 3
      with eq up(1) show ?thesis by simp
    next
      case 4
      with eq de(1) show ?thesis by simp
    qed
  qed
  have nones: "map sym_name (filter (\<lambda>s. AuditLogAction_category Act Cat s = Inr (Raw RNone)) ?ss) =
       [''kick'', ''member_prune'', ''ban'', ''unban'', ''member_move'', ''member_disconnect'',
        ''bot_add'', ''message_pin'', ''message_unpin'']"
    by (simp only: filter_map_cong_names[OF none_iff] names category_table_none)
  have tt: "\<forall>s \<in> set ?ss. \<exists>v. sym_value s = RInt v \<and> 0 \<le> v \<and> v < 90 \<and>
        AuditLogAction_target_type s = Inr (Raw (RStr (spec_target_names ! nat (v div 10))))"
  proof
    fix s assume "s \<in> set ?ss"
    then have "(sym_name s, sym_value s) \<in> set (map (\<lambda>s. (sym_name s, sym_value s)) ?ss)"
      by force
    then have "(sym_name s, sym_value s) \<in> set (members AuditLogAction_body)"
      by (simp only: pairs)
    with AuditLogAction_values obtain v where v: "sym_value s = RInt v" "0 \<le> v" "v < 90"
      by blast
    from target_type_bucket[OF v] v
    show "\<exists>v. sym_value s = RInt v \<and> 0 \<le> v \<and> v < 90 \<and>
        AuditLogAction_target_type s = Inr (Raw (RStr (spec_target_names ! nat (v div 10))))"
      by blast
  qed
  have u1: "\<forall>s v. sym_value s = RInt v \<longrightarrow> 0 \<le> v \<longrightarrow> v < 90 \<longrightarrow>
        AuditLogAction_target_type s = Inr (Raw (RStr (spec_target_names ! nat (v div 10))))"
    using target_type_bucket by blast
  have u2: "\<forall>s v. sym_value s = RInt v \<longrightarrow> v < 10 \<longrightarrow> v \<noteq> - 1 \<longrightarrow>
        AuditLogAction_target_type s = Inr (Raw (RStr ''guild''))"
    using target_type_guild by blast
  show ?thesis
    apply (rule exI[of _ Cat], rule exI[of _ st1], rule exI[of _ Act], rule exI[of _ st2])
    apply (rule exI[of _ ?ss], rule exI[of _ cr], rule exI[of _ up], rule exI[of _ de])
    using c a cr up de it pairs len cat nones tt u1 u2
    by (intro conjI)
qed

theorem AuditLogAction_properties_witness:
  "\<exists>Cat st1 Act st2 ss de.
     EnumMeta_new st0 ''AuditLogActionCategory'' [] AuditLogActionCategory_body = Inr (Cat, st1) \<and>
     EnumMeta_new st1 ''AuditLogAction'' [] AuditLogAction_body = Inr (Act, st2) \<and>
     EnumMeta_iter Act = Inr ss \<and>
     EnumMeta_getitem Cat ''delete'' = Inr de \<and>
     sym_name (ss ! 29) = ''message_bulk_delete'' \<and> sym_value (ss ! 29) = RInt 73 \<and>
     AuditLogAction_category Act Cat (ss ! 29) = Inr (Sym de) \<and>
     AuditLogAction_target_type (ss ! 29) = Inr (Raw (RStr ''message'')) \<and>
     sym_name (ss ! 7) = ''kick'' \<and> sym_value (ss ! 7) = RInt 20 \<and>
     AuditLogAction_category Act Cat (ss ! 7) = Inr (Raw RNone) \<and>
     AuditLogAction_target_type (ss ! 7) = Inr (Raw (RStr ''user''))"
proof -
  from AuditLogAction_properties[of st0 "[]" "[]"] obtain Cat st1 Act st2 ss de where
    c: "EnumMeta_new st0 ''AuditLogActionCategory'' [] AuditLogActionCategory_body = Inr (Cat, st1)" and
    a: "EnumMeta_new st1 ''AuditLogAction'' [] AuditLogAction_body = Inr (Act, st2)" and
    de: "EnumMeta_getitem Cat ''delete'' = Inr de" and
    it: "EnumMeta_iter Act = Inr ss" and
    pairs: "map (\<lambda>s. (sym_name s, sym_value s)) ss = members AuditLogAction_body" and
    len: "length ss = 35" and
    cat: "\<forall>s \<in> set ss.
        AuditLogAction_category Act Cat s =
          (case spec_category (sym_name s) of
             None \<Rightarrow> Inr (Raw RNone)
           | Some cn \<Rightarrow> (case EnumMeta_getitem Cat cn of Inr x \<Rightarrow> Inr (Sym x) | Inl e \<Rightarrow> Inl e))" and
    tt: "\<forall>s v. sym_value s = RInt v \<longrightarrow> 0 \<le> v \<longrightarrow> v < 90 \<longrightarrow>
        AuditLogAction_target_type s = Inr (Raw (RStr (spec_target_names ! nat (v div 10))))"
    by blast
  from len have in29: "ss ! 29 \<in> set ss" and in7: "ss ! 7 \<in> set ss" by simp_all
  from len have "map (\<lambda>s. (sym_name s, sym_value s)) ss ! 29 = (sym_name (ss ! 29), sym_value (ss ! 29))"
    by simp
  then have p29: "sym_name (ss ! 29) = ''message_bulk_delete''" "sym_value (ss ! 29) = RInt 73"
    by (simp_all add: pairs AuditLogAction_members)
  from len have "map (\<lambda>s. (sym_name s, sym_value s)) ss ! 7 = (sym_name (ss ! 7), sym_value (ss ! 7))"
    by simp
  then have p7: "sym_name (ss ! 7) = ''kick''" "sym_value (ss ! 7) = RInt 20"
    by (simp_all add: pairs AuditLogAction_members)
  from cat in29 have "AuditLogAction_category Act Cat (ss ! 29) =
      (case spec_category (sym_name (ss ! 29)) of
             None \<Rightarrow> Inr (Raw RNone)
           | Some cn \<Rightarrow> (case EnumMeta_getitem Cat cn of Inr x \<Rightarrow> Inr (Sym x) | Inl e \<Rightarrow> Inl e))"
    by blast
  then have c29: "AuditLogAction_category Act Cat (ss ! 29) = Inr (Sym de)"
    by (simp add: p29 spec_category_def ends_with_def de)
  from cat in7 have "AuditLogAction_category Act Cat (ss ! 7) =
      (case spec_category (sym_name (ss ! 7)) of
             None \<Rightarrow> Inr (Raw RNone)
           | Some cn \<Rightarrow> (case EnumMeta_getitem Cat cn of Inr x \<Rightarrow> Inr (Sym x) | Inl e \<Rightarrow> Inl e))"
    by blast
  then have c7: "AuditLogAction_category Act Cat (ss ! 7) = Inr (Raw RNone)"
    by (simp add: p7 spec_category_def ends_with_def)
  from tt p29(2) have "AuditLogAction_target_type (ss ! 29) =
      Inr (Raw (RStr (spec_target_names ! nat (73 div 10))))" by simp
  then have t29: "AuditLogAction_target_type (ss ! 29) = Inr (Raw (RStr ''message''))"
    by (simp add: spec_target_names_def)
  from tt p7(2) have "AuditLogAction_target_type (ss ! 7) =
      Inr (Raw (RStr (spec_target_names ! nat (20 div 10))))" by simp
  then have t7: "AuditLogAction_target_type (ss ! 7) = Inr (Raw (RStr ''user''))"
    by (simp add: spec_target_names_def)
  show ?thesis
    apply (rule exI[of _ Cat], rule exI[of _ st1], rule exI[of _ Act], rule exI[of _ st2])
    apply (rule exI[of _ ss], rule exI[of _ de])
    using c a it de p29 c29 t29 p7 c7 t7
    by (intro conjI)
qed

end
